theory Spec2Isabelle
  imports Complex_Main
begin

section \<open>Numbers of the runtime\<close>

text \<open>
  The renderer is JavaScript: every number is an IEEE 754 double, and every arithmetic
  operation gives the double nearest to the exact result. \<open>fl x\<close> is the number with a
  significand of 53 bits nearest to the real \<open>x\<close>, a tie going to the even significand;
  \<open>binade x\<close> is the exponent \<open>e\<close> with \<open>2 ^ e \<le> \<bar>x\<bar> < 2 ^ (e + 1)\<close>. The
  exponent is not bounded in the model: pixel values and day counts are far from the
  overflow and underflow thresholds of doubles.

  A \<open>number\<close> is a finite double (a real in the range of \<open>fl\<close>), one of the two
  infinities, or \<open>NaN\<close>. The operations follow IEEE 754. Zero has no sign in the model:
  the one division by a variable in the program divides by \<open>totalDays\<close>, a sum
  \<open>k + 1\<close>, which is \<open>+0\<close> when it is zero.
\<close>

fun bit_length :: "nat \<Rightarrow> nat" where
  "bit_length n = (if n = 0 then 0 else Suc (bit_length (n div 2)))"

declare bit_length.simps [simp del]

definition pow2 :: "int \<Rightarrow> real" where
  "pow2 e = (if 0 \<le> e then 2 ^ nat e else 1 / 2 ^ nat (- e))"

definition binade :: "real \<Rightarrow> int" where
  "binade x =
     (if 1 \<le> \<bar>x\<bar> then int (bit_length (nat \<lfloor>\<bar>x\<bar>\<rfloor>)) - 1
      else (let k = int (bit_length (nat \<lfloor>1 / \<bar>x\<bar>\<rfloor>)) - 1
            in if \<bar>x\<bar> * pow2 k = 1 then - k else - (k + 1)))"

definition round_even :: "real \<Rightarrow> int" where
  "round_even x =
     (let f = \<lfloor>x\<rfloor>; r = x - real_of_int f
      in if r < 1 / 2 then f else if 1 / 2 < r then f + 1
         else if even f then f else f + 1)"

definition fl :: "real \<Rightarrow> real" where
  "fl x = (if x = 0 then 0
           else (let e = binade x - 52 in real_of_int (round_even (x / pow2 e)) * pow2 e))"

datatype number = Fin real | PInf | NInf | NaN

fun js_neg :: "number \<Rightarrow> number" where
  "js_neg (Fin a) = Fin (- a)"
| "js_neg PInf = NInf"
| "js_neg NInf = PInf"
| "js_neg NaN = NaN"

fun js_add :: "number \<Rightarrow> number \<Rightarrow> number" where
  "js_add (Fin a) (Fin b) = Fin (fl (a + b))"
| "js_add NaN y = NaN"
| "js_add x NaN = NaN"
| "js_add PInf NInf = NaN"
| "js_add NInf PInf = NaN"
| "js_add PInf y = PInf"
| "js_add x PInf = PInf"
| "js_add NInf y = NInf"
| "js_add x NInf = NInf"

definition js_sub :: "number \<Rightarrow> number \<Rightarrow> number" where
  "js_sub x y = js_add x (js_neg y)"

fun js_mul :: "number \<Rightarrow> number \<Rightarrow> number" where
  "js_mul (Fin a) (Fin b) = Fin (fl (a * b))"
| "js_mul NaN y = NaN"
| "js_mul x NaN = NaN"
| "js_mul (Fin a) y = (if a = 0 then NaN else if 0 < a then y else js_neg y)"
| "js_mul x (Fin b) = (if b = 0 then NaN else if 0 < b then x else js_neg x)"
| "js_mul PInf y = y"
| "js_mul NInf y = js_neg y"

fun js_div :: "number \<Rightarrow> number \<Rightarrow> number" where
  "js_div (Fin a) (Fin b) =
     (if b = 0 then (if a = 0 then NaN else if 0 < a then PInf else NInf)
      else Fin (fl (a / b)))"
| "js_div NaN y = NaN"
| "js_div x NaN = NaN"
| "js_div (Fin a) y = Fin 0"
| "js_div x (Fin b) = (if 0 \<le> b then x else js_neg x)"
| "js_div x y = NaN"

text \<open>\<open>Math.max\<close> of two numbers, and the comparisons \<open><=\<close> and \<open><\<close>, which are
  false when an operand is \<open>NaN\<close>.\<close>

fun js_max :: "number \<Rightarrow> number \<Rightarrow> number" where
  "js_max (Fin a) (Fin b) = Fin (max a b)"
| "js_max NaN y = NaN"
| "js_max x NaN = NaN"
| "js_max PInf y = PInf"
| "js_max x PInf = PInf"
| "js_max NInf y = y"
| "js_max x NInf = x"

fun js_le :: "number \<Rightarrow> number \<Rightarrow> bool" where
  "js_le (Fin a) (Fin b) \<longleftrightarrow> a \<le> b"
| "js_le NaN y \<longleftrightarrow> False"
| "js_le x NaN \<longleftrightarrow> False"
| "js_le NInf y \<longleftrightarrow> True"
| "js_le x PInf \<longleftrightarrow> True"
| "js_le x y \<longleftrightarrow> False"

fun js_lt :: "number \<Rightarrow> number \<Rightarrow> bool" where
  "js_lt (Fin a) (Fin b) \<longleftrightarrow> a < b"
| "js_lt NaN y \<longleftrightarrow> False"
| "js_lt x NaN \<longleftrightarrow> False"
| "js_lt PInf y \<longleftrightarrow> False"
| "js_lt x NInf \<longleftrightarrow> False"
| "js_lt x y \<longleftrightarrow> True"

definition js_ge :: "number \<Rightarrow> number \<Rightarrow> bool" where
  "js_ge x y = js_le y x"

text \<open>\<open>ToIntegerOrInfinity\<close> on a finite number: the fraction is dropped.\<close>

definition ToInteger :: "real \<Rightarrow> int" where
  "ToInteger x = (if 0 \<le> x then \<lfloor>x\<rfloor> else \<lceil>x\<rceil>)"

definition ROW_HEIGHT :: real where
  "ROW_HEIGHT = 44"

definition TIMELINE_HEADER_H :: real where
  "TIMELINE_HEADER_H = 48"

definition ELBOW :: real where
  "ELBOW = 10"

definition msPerDay :: int where
  "msPerDay = 86400000"

section \<open>Dates and the calendar\<close>

text \<open>
  Every \<open>Date\<close> object of the program is a local midnight: \<open>parseDate\<close> builds one
  from year, month and day, and the tick generator changes only the day of the month or
  the month. A valid \<open>Date\<close> is therefore modelled by its local calendar day, counted
  from 1970-01-01, and a \<open>Date\<close> object by \<open>Date option\<close>, \<open>None\<close> being the
  invalid date (time value \<open>NaN\<close>). The time value in milliseconds depends on the time
  zone of the machine, which is the parameter \<open>tz\<close>: the displacement in milliseconds
  of the local midnight of a day from the midnight of that day in universal time
  (daylight saving changes it within a year). Time values are integers below \<open>2 ^ 53\<close>,
  which doubles hold exactly.
\<close>

type_synonym Date = int

text \<open>Offsets from universal time lie between -12 and +14 hours, so a displacement is
  at most 14 hours (50400000 ms) either way.\<close>

typedef zone = "{f :: int \<Rightarrow> int. \<forall>d. \<bar>f d\<bar> \<le> 50400000}"
  by (rule exI [of _ "\<lambda>_. 0"]) simp

setup_lifting type_definition_zone

lift_definition displacement :: "zone \<Rightarrow> int \<Rightarrow> int" is "\<lambda>f. f" .

lift_definition utc :: zone is "\<lambda>_. 0"
  by simp

text \<open>A zone with daylight saving: midnight is one hour earlier in universal time on
  the days 90 to 299 of each block of 365 days.\<close>

lift_definition summer_zone :: zone is "\<lambda>d. if 90 \<le> d mod 365 \<and> d mod 365 < 300 then - 3600000 else 0"
  by simp

definition getTime :: "zone \<Rightarrow> Date \<Rightarrow> int" where
  "getTime tz d = d * msPerDay + displacement tz d"

text \<open>The calendar of ECMA-262: day number of the first day of a year, leap years,
  and the day number of a year, month (from 0, any integer) and day of the month.\<close>

definition DayFromYear :: "int \<Rightarrow> int" where
  "DayFromYear y =
     365 * (y - 1970) + (y - 1969) div 4 - (y - 1901) div 100 + (y - 1601) div 400"

definition InLeapYear :: "int \<Rightarrow> bool" where
  "InLeapYear y \<longleftrightarrow> y mod 4 = 0 \<and> (y mod 100 \<noteq> 0 \<or> y mod 400 = 0)"

definition monthStart :: "bool \<Rightarrow> int \<Rightarrow> int" where
  "monthStart leap m =
     (if m \<le> 0 then 0 else if m = 1 then 31
      else (if leap then 1 else 0) +
        (if m = 2 then 59 else if m = 3 then 90 else if m = 4 then 120
         else if m = 5 then 151 else if m = 6 then 181 else if m = 7 then 212
         else if m = 8 then 243 else if m = 9 then 273 else if m = 10 then 304
         else 334))"

definition MakeDay :: "int \<Rightarrow> int \<Rightarrow> int \<Rightarrow> int" where
  "MakeDay y m d =
     (let ym = y + m div 12; mn = m mod 12
      in DayFromYear ym + monthStart (InLeapYear ym) mn + d - 1)"

text \<open>\<open>YearFromDay d\<close> is the year the day falls in: an estimate from the mean length
  of a year, moved by one where the estimate is off.\<close>

definition YearFromDay :: "int \<Rightarrow> int" where
  "YearFromDay d =
     (let y = 1970 + (d * 400) div 146097
      in if DayFromYear (y + 1) \<le> d then y + 1
         else if d < DayFromYear y then y - 1 else y)"

definition DayWithinYear :: "int \<Rightarrow> int" where
  "DayWithinYear d = d - DayFromYear (YearFromDay d)"

definition MonthFromDay :: "int \<Rightarrow> int" where
  "MonthFromDay d =
     (let leap = InLeapYear (YearFromDay d); w = DayWithinYear d
      in if w < monthStart leap 1 then 0 else if w < monthStart leap 2 then 1
         else if w < monthStart leap 3 then 2 else if w < monthStart leap 4 then 3
         else if w < monthStart leap 5 then 4 else if w < monthStart leap 6 then 5
         else if w < monthStart leap 7 then 6 else if w < monthStart leap 8 then 7
         else if w < monthStart leap 9 then 8 else if w < monthStart leap 10 then 9
         else if w < monthStart leap 11 then 10 else 11)"

definition DateFromDay :: "int \<Rightarrow> int" where
  "DateFromDay d =
     DayWithinYear d - monthStart (InLeapYear (YearFromDay d)) (MonthFromDay d) + 1"

definition WeekDay :: "int \<Rightarrow> int" where
  "WeekDay d = (d + 4) mod 7"

text \<open>\<open>TimeClip\<close>: a time value beyond 8.64e15 milliseconds is no date.\<close>

definition TimeClip :: "zone \<Rightarrow> Date \<Rightarrow> Date option" where
  "TimeClip tz day = (if \<bar>getTime tz day\<bar> \<le> 8640000000000000 then Some day else None)"

text \<open>\<open>new Date(y, m, d)\<close>. \<open>makeDate\<close> is the constructor on integers: a year from 0
  to 99 means 1900 + y. \<open>newDate\<close> is the constructor on numbers: an argument that is
  not finite gives the invalid date, and the fraction of a finite argument is dropped.\<close>

definition makeDate :: "zone \<Rightarrow> int \<Rightarrow> int \<Rightarrow> int \<Rightarrow> Date option" where
  "makeDate tz y m d =
     (let yr = (if 0 \<le> y \<and> y \<le> 99 then 1900 + y else y)
      in TimeClip tz (MakeDay yr m d))"

definition newDate :: "zone \<Rightarrow> number \<Rightarrow> number \<Rightarrow> number \<Rightarrow> Date option" where
  "newDate tz y m d =
     (case (y, m, d) of
        (Fin yr, Fin mr, Fin dr) \<Rightarrow> makeDate tz (ToInteger yr) (ToInteger mr) (ToInteger dr)
      | _ \<Rightarrow> None)"

subsection \<open>parseDate\<close>

text \<open>\<open>str.split('-')\<close>, and \<open>Number\<close> on each piece. \<open>Number\<close> strips white
  space; the empty string is 0; a piece may be a decimal literal with sign, fraction and
  exponent, \<open>Infinity\<close>, or a binary, octal or hexadecimal integer; anything else is
  \<open>NaN\<close>. Characters are the code points below 256.\<close>

fun split_dash :: "string \<Rightarrow> string list" where
  "split_dash [] = [[]]"
| "split_dash (c # cs) =
     (if c = CHR ''-'' then [] # split_dash cs
      else (case split_dash cs of [] \<Rightarrow> [[c]] | p # ps \<Rightarrow> (c # p) # ps))"

definition is_space :: "char \<Rightarrow> bool" where
  "is_space c \<longleftrightarrow>
     (let code = (of_char c :: nat) in (9 \<le> code \<and> code \<le> 13) \<or> code = 32 \<or> code = 160)"

definition trim :: "string \<Rightarrow> string" where
  "trim s = rev (dropWhile is_space (rev (dropWhile is_space s)))"

definition digit_of :: "char \<Rightarrow> nat option" where
  "digit_of c =
     (let code = (of_char c :: nat)
      in if 48 \<le> code \<and> code \<le> 57 then Some (code - 48)
         else if 97 \<le> code \<and> code \<le> 102 then Some (code - 87)
         else if 65 \<le> code \<and> code \<le> 70 then Some (code - 55)
         else None)"

definition is_digit :: "char \<Rightarrow> bool" where
  "is_digit c \<longleftrightarrow> 48 \<le> (of_char c :: nat) \<and> (of_char c :: nat) \<le> 57"

fun digits_value :: "nat \<Rightarrow> nat \<Rightarrow> string \<Rightarrow> nat option" where
  "digits_value b acc [] = Some acc"
| "digits_value b acc (c # cs) =
     (case digit_of c of
        None \<Rightarrow> None
      | Some v \<Rightarrow> if v < b then digits_value b (b * acc + v) cs else None)"

definition unsigned_int :: "nat \<Rightarrow> string \<Rightarrow> nat option" where
  "unsigned_int b s = (if s = [] then None else digits_value b 0 s)"

definition radix_literal :: "nat \<Rightarrow> string \<Rightarrow> number" where
  "radix_literal b s = (case unsigned_int b s of None \<Rightarrow> NaN | Some v \<Rightarrow> Fin (fl (real v)))"

definition exponent_part :: "string \<Rightarrow> int option" where
  "exponent_part s =
     (case s of
        [] \<Rightarrow> Some 0
      | c # t \<Rightarrow>
          if c = CHR ''e'' \<or> c = CHR ''E''
          then (case t of
                  [] \<Rightarrow> None
                | d # u \<Rightarrow>
                    if d = CHR ''+'' then map_option int (unsigned_int 10 u)
                    else if d = CHR ''-'' then map_option (\<lambda>n. - int n) (unsigned_int 10 u)
                    else map_option int (unsigned_int 10 t))
          else None)"

definition scale10 :: "nat \<Rightarrow> int \<Rightarrow> real" where
  "scale10 m k = (if 0 \<le> k then real m * 10 ^ nat k else real m / 10 ^ nat (- k))"

definition unsigned_decimal :: "string \<Rightarrow> number" where
  "unsigned_decimal s =
     (if s = ''Infinity'' then PInf
      else (let ip = takeWhile is_digit s;
                r = dropWhile is_digit s;
                dot = (r \<noteq> [] \<and> hd r = CHR ''.'');
                fp = (if dot then takeWhile is_digit (tl r) else []);
                rest = (if dot then dropWhile is_digit (tl r) else r)
            in if ip = [] \<and> fp = [] then NaN
               else (case (digits_value 10 0 (ip @ fp), exponent_part rest) of
                       (Some m, Some e) \<Rightarrow> Fin (fl (scale10 m (e - int (length fp))))
                     | _ \<Rightarrow> NaN)))"

definition decimal_literal :: "string \<Rightarrow> number" where
  "decimal_literal s =
     (case s of
        [] \<Rightarrow> NaN
      | c # t \<Rightarrow>
          if c = CHR ''+'' then unsigned_decimal t
          else if c = CHR ''-'' then js_neg (unsigned_decimal t)
          else unsigned_decimal s)"

definition Number :: "string \<Rightarrow> number" where
  "Number str =
     (let s = trim str
      in if s = [] then Fin 0
         else if take 2 s = ''0x'' \<or> take 2 s = ''0X'' then radix_literal 16 (drop 2 s)
         else if take 2 s = ''0o'' \<or> take 2 s = ''0O'' then radix_literal 8 (drop 2 s)
         else if take 2 s = ''0b'' \<or> take 2 s = ''0B'' then radix_literal 2 (drop 2 s)
         else decimal_literal s)"

text \<open>\<open>const [y, m, d] = str.split('-').map(Number)\<close>: a piece that is missing is
  \<open>undefined\<close>, which arithmetic and the constructor turn into \<open>NaN\<close>; pieces after
  the third are ignored.\<close>

definition parseDate :: "zone \<Rightarrow> string \<Rightarrow> Date option" where
  "parseDate tz str =
     (case map Number (split_dash str) of
        y # m # d # _ \<Rightarrow> newDate tz y (js_sub m (Fin 1)) d
      | _ \<Rightarrow> None)"

subsection \<open>daysBetween and dateToX\<close>

text \<open>\<open>Math.round\<close> rounds to the nearest integer, a half going up. \<open>daysBetween\<close>
  on two valid dates divides the difference of the time values, an integer, and rounds
  the quotient to an integer. The quotient is taken exactly: the double nearest to it
  could round to another integer only where the drift of the two midnights is within 4
  milliseconds of half a day. \<open>daysBetween_num\<close> is the function on \<open>Date\<close>
  objects, \<open>NaN\<close> when one of them is invalid. \<open>dateToX\<close> multiplies the day count
  by the day width, in doubles.\<close>

definition Math_round :: "real \<Rightarrow> int" where
  "Math_round x = \<lfloor>x + 1 / 2\<rfloor>"

definition daysBetween :: "zone \<Rightarrow> Date \<Rightarrow> Date \<Rightarrow> int" where
  "daysBetween tz a b = Math_round (real_of_int (getTime tz b - getTime tz a) / 86400000)"

definition daysBetween_num :: "zone \<Rightarrow> Date option \<Rightarrow> Date option \<Rightarrow> number" where
  "daysBetween_num tz a b =
     (case (a, b) of
        (Some x, Some y) \<Rightarrow> Fin (real_of_int (daysBetween tz x y))
      | _ \<Rightarrow> NaN)"

definition dateToX :: "zone \<Rightarrow> Date option \<Rightarrow> Date option \<Rightarrow> number \<Rightarrow> number" where
  "dateToX tz date projectStart dayWidth = js_mul (daysBetween_num tz projectStart date) dayWidth"

section \<open>Data model\<close>

text \<open>The schedule as the JSON gives it: dates are strings, parsed where they are
  used. A task without \<open>dependsOn\<close> has the empty list (the renderer treats both
  alike).\<close>

record task =
  task_id :: string
  task_name :: string
  task_start :: string
  task_end :: string
  task_effort :: string
  dependsOn :: "string list"

record group =
  group_id :: string
  group_name :: string
  group_start :: string
  group_end :: string
  group_effort :: string
  tasks :: "task list"

record project =
  project_name :: string
  project_start :: string
  project_end :: string

record schedule =
  project :: project
  groups :: "group list"

datatype row_type = PhaseRow | TaskRow

datatype row_data = GroupData group | TaskData task

text \<open>A row object \<open>{ type, groupIdx, taskIdx, data, rowIndex, visible }\<close>, with
  \<open>visibleY\<close> stored into it by \<open>renderSVG\<close>; until then the property is absent
  (\<open>None\<close>), and reading it gives \<open>undefined\<close>.\<close>

record row =
  rtype :: row_type
  groupIdx :: nat
  taskIdx :: "nat option"
  rdata :: row_data
  rowIndex :: nat
  visible :: bool
  visibleY :: "number option"

fun data_id :: "row_data \<Rightarrow> string" where
  "data_id (GroupData g) = group_id g"
| "data_id (TaskData t) = task_id t"

fun data_name :: "row_data \<Rightarrow> string" where
  "data_name (GroupData g) = group_name g"
| "data_name (TaskData t) = task_name t"

fun data_start :: "row_data \<Rightarrow> string" where
  "data_start (GroupData g) = group_start g"
| "data_start (TaskData t) = task_start t"

fun data_end :: "row_data \<Rightarrow> string" where
  "data_end (GroupData g) = group_end g"
| "data_end (TaskData t) = task_end t"

fun data_effort :: "row_data \<Rightarrow> string" where
  "data_effort (GroupData g) = group_effort g"
| "data_effort (TaskData t) = task_effort t"

fun data_dependsOn :: "row_data \<Rightarrow> string list" where
  "data_dependsOn (GroupData g) = []"
| "data_dependsOn (TaskData t) = dependsOn t"

text \<open>The chart object. \<open>taskMap\<close> holds references to the row objects of
  \<open>rows\<close>; a reference is the position of the row in \<open>rows\<close>, so that what
  \<open>renderSVG\<close> stores into a row is seen through the map.\<close>

record chart =
  data :: schedule
  projectStart :: "Date option"
  projectEnd :: "Date option"
  totalDays :: number
  dayWidth :: number
  svgWidth :: number
  rows :: "row list"
  collapsedGroups :: "string set"
  taskMap :: "string \<rightharpoonup> nat"

definition GanttChart :: "zone \<Rightarrow> schedule \<Rightarrow> chart" where
  "GanttChart tz d =
     (let ps = parseDate tz (project_start (project d));
          pe = parseDate tz (project_end (project d))
      in \<lparr> data = d, projectStart = ps, projectEnd = pe,
           totalDays = js_add (daysBetween_num tz ps pe) (Fin 1),
           dayWidth = Fin 1, svgWidth = Fin 0, rows = [], collapsedGroups = {},
           taskMap = Map.empty \<rparr>)"

section \<open>Row flattening\<close>

fun push_tasks :: "bool \<Rightarrow> nat \<Rightarrow> nat \<Rightarrow> task list \<Rightarrow> row list \<times> nat \<Rightarrow> row list \<times> nat" where
  "push_tasks collapsed gi ti [] st = st"
| "push_tasks collapsed gi ti (t # ts) (rs, rowIdx) =
     push_tasks collapsed gi (Suc ti) ts
       (rs @ [\<lparr> rtype = TaskRow, groupIdx = gi, taskIdx = Some ti, rdata = TaskData t,
                rowIndex = rowIdx, visible = (\<not> collapsed), visibleY = None \<rparr>],
        Suc rowIdx)"

fun push_groups :: "string set \<Rightarrow> nat \<Rightarrow> group list \<Rightarrow> row list \<times> nat \<Rightarrow> row list \<times> nat" where
  "push_groups cg gi [] st = st"
| "push_groups cg gi (g # gs) (rs, rowIdx) =
     (let collapsed = (group_id g \<in> cg)
      in push_groups cg (Suc gi) gs
           (push_tasks collapsed gi 0 (tasks g)
              (rs @ [\<lparr> rtype = PhaseRow, groupIdx = gi, taskIdx = None, rdata = GroupData g,
                       rowIndex = rowIdx, visible = True, visibleY = None \<rparr>],
               Suc rowIdx)))"

definition buildRows :: "chart \<Rightarrow> chart" where
  "buildRows c =
     c\<lparr>rows := fst (push_groups (collapsedGroups c) 0 (groups (data c)) ([], 0))\<rparr>"

fun taskMap_loop :: "row list \<Rightarrow> nat \<Rightarrow> (string \<rightharpoonup> nat) \<Rightarrow> (string \<rightharpoonup> nat)" where
  "taskMap_loop [] i m = m"
| "taskMap_loop (r # rs) i m =
     taskMap_loop rs (Suc i) (if rtype r = TaskRow then m(data_id (rdata r) \<mapsto> i) else m)"

definition buildTaskMap :: "chart \<Rightarrow> chart" where
  "buildTaskMap c = c\<lparr>taskMap := taskMap_loop (rows c) 0 Map.empty\<rparr>"

text \<open>What the specification says the flattener emits, written out with the indices:
  for each group in order one phase row, always visible, then one row for each of its
  tasks in order, visible unless the id of the group is in the collapsed set.\<close>

fun flatten :: "string set \<Rightarrow> nat \<Rightarrow> nat \<Rightarrow> group list \<Rightarrow> row list" where
  "flatten cg gi n [] = []"
| "flatten cg gi n (g # gs) =
     \<lparr> rtype = PhaseRow, groupIdx = gi, taskIdx = None, rdata = GroupData g,
       rowIndex = n, visible = True, visibleY = None \<rparr>
     # map (\<lambda>k. \<lparr> rtype = TaskRow, groupIdx = gi, taskIdx = Some k, rdata = TaskData (tasks g ! k),
                rowIndex = Suc n + k, visible = (group_id g \<notin> cg), visibleY = None \<rparr>) [0..<length (tasks g)]
     @ flatten cg (Suc gi) (Suc n + length (tasks g)) gs"

section \<open>Adaptive tick dates\<close>

text \<open>The setters of \<open>Date\<close> the tick generator uses, on local days.\<close>

definition setDate :: "Date \<Rightarrow> int \<Rightarrow> Date" where
  "setDate cur n = MakeDay (YearFromDay cur) (MonthFromDay cur) n"

definition setMonth :: "Date \<Rightarrow> int \<Rightarrow> Date" where
  "setMonth cur m = MakeDay (YearFromDay cur) m (DateFromDay cur)"

definition months :: "string list" where
  "months = [''Jan'', ''Feb'', ''Mar'', ''Apr'', ''May'', ''Jun'',
             ''Jul'', ''Aug'', ''Sep'', ''Oct'', ''Nov'', ''Dec'']"

fun show_nat :: "nat \<Rightarrow> string" where
  "show_nat n =
     (if n < 10 then [''0123456789'' ! n]
      else show_nat (n div 10) @ [''0123456789'' ! (n mod 10)])"

declare show_nat.simps [simp del]

definition show_int :: "int \<Rightarrow> string" where
  "show_int i = (if i < 0 then CHR ''-'' # show_nat (nat (- i)) else show_nat (nat i))"

text \<open>A tick \<open>{ date, label }\<close>.\<close>

record Tick =
  tick_date :: "Date option"
  tick_label :: string

definition week_tick :: "Date \<Rightarrow> Tick" where
  "week_tick cur =
     \<lparr> tick_date = Some cur,
       tick_label = months ! nat (MonthFromDay cur) @ '' '' @ show_int (DateFromDay cur) \<rparr>"

definition month_tick :: "Date \<Rightarrow> Tick" where
  "month_tick cur =
     \<lparr> tick_date = Some cur,
       tick_label = months ! nat (MonthFromDay cur) @ '' '' @ show_int (YearFromDay cur) \<rparr>"

lemma setDate_shift: "setDate d (DateFromDay d + k) = d + k"
proof -
  have "0 \<le> MonthFromDay d \<and> MonthFromDay d < 12"
    by (simp add: MonthFromDay_def Let_def)
  then have "MonthFromDay d div 12 = 0" "MonthFromDay d mod 12 = MonthFromDay d"
    by simp_all
  then show ?thesis
    by (simp add: setDate_def MakeDay_def DateFromDay_def DayWithinYear_def)
qed

lemma getTime_lower: "d * msPerDay - 50400000 \<le> getTime tz d"
proof -
  have "\<bar>displacement tz d\<bar> \<le> 50400000"
    by transfer simp
  then show ?thesis
    by (simp add: getTime_def)
qed

lemma getTime_upper: "getTime tz d \<le> d * msPerDay + 50400000"
proof -
  have "\<bar>displacement tz d\<bar> \<le> 50400000"
    by transfer simp
  then show ?thesis
    by (simp add: getTime_def)
qed

lemma div_succ:
  fixes n k :: int
  assumes "0 < k"
  shows "(n + 1) div k = n div k + (if (n + 1) mod k = 0 then 1 else 0)"
proof (cases "n mod k = k - 1")
  case True
  have "k * (n div k) + n mod k = n" by simp
  with True have "n + 1 = k * (n div k) + k" by linarith
  then have "n + 1 = k * (n div k + 1) + 0"
    by (simp add: distrib_left)
  then have "(n + 1) div k = n div k + 1" "(n + 1) mod k = 0"
    using assms int_div_pos_eq [of "n + 1" k "n div k + 1" 0]
      int_mod_pos_eq [of "n + 1" k "n div k + 1" 0] by simp_all
  then show ?thesis by simp
next
  case False
  have "0 \<le> n mod k" "n mod k < k"
    using assms by simp_all
  with False have r: "0 \<le> n mod k + 1 \<and> n mod k + 1 < k"
    by linarith
  have "n + 1 = k * (n div k) + (n mod k + 1)"
    using mult_div_mod_eq [of k n] by simp
  then have "(n + 1) div k = n div k" "(n + 1) mod k = n mod k + 1"
    using r int_div_pos_eq [of "n + 1" k "n div k" "n mod k + 1"]
      int_mod_pos_eq [of "n + 1" k "n div k" "n mod k + 1"] by simp_all
  moreover have "n mod k + 1 \<noteq> 0" using r \<open>0 \<le> n mod k\<close> by linarith
  ultimately show ?thesis by simp
qed

lemma leap_mods:
  fixes y :: int
  shows "(y + 1 - 1969) mod 4 = y mod 4" "(y + 1 - 1901) mod 100 = y mod 100"
    "(y + 1 - 1601) mod 400 = y mod 400"
proof -
  have "(y + 1 - 1969) mod 4 = (y + (- 492) * 4) mod 4" by simp
  then show "(y + 1 - 1969) mod 4 = y mod 4" by (simp only: mod_mult_self1)
  have "(y + 1 - 1901) mod 100 = (y + (- 19) * 100) mod 100" by simp
  then show "(y + 1 - 1901) mod 100 = y mod 100" by (simp only: mod_mult_self1)
  have "(y + 1 - 1601) mod 400 = (y + (- 4) * 400) mod 400" by simp
  then show "(y + 1 - 1601) mod 400 = y mod 400" by (simp only: mod_mult_self1)
qed

lemma mod_400_100: "(y::int) mod 400 = 0 \<Longrightarrow> y mod 100 = 0"
  using mod_mod_cancel [of 100 400 y] by simp

lemma mod_100_4: "(y::int) mod 100 = 0 \<Longrightarrow> y mod 4 = 0"
  using mod_mod_cancel [of 4 100 y] by simp

lemma DaysInYear: "DayFromYear (y + 1) - DayFromYear y = (if InLeapYear y then 366 else 365)"
proof -
  define p4 where "p4 \<longleftrightarrow> y mod 4 = 0"
  define p100 where "p100 \<longleftrightarrow> y mod 100 = 0"
  define p400 where "p400 \<longleftrightarrow> y mod 400 = 0"
  have a: "(y + 1 - 1969) div 4 = (y - 1969) div 4 + (if p4 then 1 else 0)"
    unfolding p4_def
    using div_succ [of 4 "y - 1969"] leap_mods(1) [of y] by (simp add: algebra_simps)
  have b: "(y + 1 - 1901) div 100 = (y - 1901) div 100 + (if p100 then 1 else 0)"
    unfolding p100_def
    using div_succ [of 100 "y - 1901"] leap_mods(2) [of y] by (simp add: algebra_simps)
  have c: "(y + 1 - 1601) div 400 = (y - 1601) div 400 + (if p400 then 1 else 0)"
    unfolding p400_def
    using div_succ [of 400 "y - 1601"] leap_mods(3) [of y] by (simp add: algebra_simps)
  have imp: "p400 \<longrightarrow> p100" "p100 \<longrightarrow> p4"
    unfolding p4_def p100_def p400_def
    using mod_400_100 [of y] mod_100_4 [of y] by blast+
  have leap: "InLeapYear y \<longleftrightarrow> p4 \<and> (\<not> p100 \<or> p400)"
    by (simp only: InLeapYear_def p4_def p100_def p400_def)
  have "DayFromYear (y + 1) - DayFromYear y
      = 365 + (if p4 then 1 else 0) - (if p100 then 1 else 0) + (if p400 then 1 else 0)"
    unfolding DayFromYear_def a b c by (cases p4; cases p100; cases p400) simp_all
  also have "\<dots> = (if InLeapYear y then 366 else 365)"
    unfolding leap using imp by (cases p4; cases p100; cases p400) simp_all
  finally show ?thesis .
qed

lemma setMonth_next: "d + 28 \<le> setMonth d (MonthFromDay d + 1)"
proof -
  define Y where "Y = YearFromDay d"
  define M where "M = MonthFromDay d"
  define D where "D = DateFromDay d"
  have M: "0 \<le> M \<and> M < 12"
    by (simp add: M_def MonthFromDay_def Let_def)
  have d: "d = DayFromYear Y + monthStart (InLeapYear Y) M + D - 1"
    by (simp add: Y_def M_def D_def DateFromDay_def DayWithinYear_def)
  show ?thesis
  proof (cases "M = 11")
    case True
    have "setMonth d (M + 1) = DayFromYear (Y + 1) + D - 1"
      by (simp add: setMonth_def MakeDay_def Let_def True monthStart_def Y_def D_def)
    moreover have "DayFromYear (Y + 1) = DayFromYear Y + (if InLeapYear Y then 366 else 365)"
      using DaysInYear [of Y] by linarith
    ultimately show ?thesis
      unfolding M_def [symmetric] using d True by (simp add: monthStart_def)
  next
    case False
    with M have cases: "M = 0 \<or> M = 1 \<or> M = 2 \<or> M = 3 \<or> M = 4 \<or> M = 5 \<or> M = 6
        \<or> M = 7 \<or> M = 8 \<or> M = 9 \<or> M = 10"
      by presburger
    then have m: "(M + 1) div 12 = 0 \<and> (M + 1) mod 12 = M + 1"
      by auto
    have "setMonth d (M + 1) = DayFromYear Y + monthStart (InLeapYear Y) (M + 1) + D - 1"
      by (simp add: setMonth_def MakeDay_def Let_def m Y_def D_def)
    moreover have "monthStart (InLeapYear Y) M + 28 \<le> monthStart (InLeapYear Y) (M + 1)"
      using cases by (auto simp: monthStart_def)
    ultimately show ?thesis
      unfolding M_def [symmetric] using d by linarith
  qed
qed

function weekly_loop :: "zone \<Rightarrow> Date \<Rightarrow> Date \<Rightarrow> Tick list \<Rightarrow> Tick list" where
  "weekly_loop tz cur pe ticks =
     (if getTime tz cur \<le> getTime tz pe
      then weekly_loop tz (setDate cur (DateFromDay cur + 7)) pe (ticks @ [week_tick cur])
      else ticks)"
  by pat_completeness auto
termination
proof (relation "measure (\<lambda>(tz, cur, pe, ticks). nat (getTime tz pe + 50400001 - cur * msPerDay))")
  show "wf (measure (\<lambda>(tz, cur, pe, ticks). nat (getTime tz pe + 50400001 - cur * msPerDay)))"
    by simp
next
  fix tz :: zone and cur pe :: Date and ticks :: "Tick list"
  assume "getTime tz cur \<le> getTime tz pe"
  with getTime_lower [of cur tz] have "0 < getTime tz pe + 50400001 - cur * msPerDay"
    by linarith
  moreover have "(cur + 7) * msPerDay = cur * msPerDay + 604800000"
    by (simp add: msPerDay_def algebra_simps)
  ultimately show "((tz, setDate cur (DateFromDay cur + 7), pe, ticks @ [week_tick cur]),
      (tz, cur, pe, ticks)) \<in> measure (\<lambda>(tz, cur, pe, ticks). nat (getTime tz pe + 50400001 - cur * msPerDay))"
    by (simp add: setDate_shift)
qed

declare weekly_loop.simps [simp del]

function monthly_loop :: "zone \<Rightarrow> Date \<Rightarrow> Date \<Rightarrow> Tick list \<Rightarrow> Tick list" where
  "monthly_loop tz cur pe ticks =
     (if getTime tz cur \<le> getTime tz pe
      then monthly_loop tz (setMonth cur (MonthFromDay cur + 1)) pe (ticks @ [month_tick cur])
      else ticks)"
  by pat_completeness auto
termination
proof (relation "measure (\<lambda>(tz, cur, pe, ticks). nat (getTime tz pe + 50400001 - cur * msPerDay))")
  show "wf (measure (\<lambda>(tz, cur, pe, ticks). nat (getTime tz pe + 50400001 - cur * msPerDay)))"
    by simp
next
  fix tz :: zone and cur pe :: Date and ticks :: "Tick list"
  assume "getTime tz cur \<le> getTime tz pe"
  with getTime_lower [of cur tz] have "0 < getTime tz pe + 50400001 - cur * msPerDay"
    by linarith
  moreover have "cur * msPerDay < setMonth cur (MonthFromDay cur + 1) * msPerDay"
    using setMonth_next [of cur] by (simp add: msPerDay_def)
  ultimately show "((tz, setMonth cur (MonthFromDay cur + 1), pe, ticks @ [month_tick cur]),
      (tz, cur, pe, ticks)) \<in> measure (\<lambda>(tz, cur, pe, ticks). nat (getTime tz pe + 50400001 - cur * msPerDay))"
    by simp
qed

declare monthly_loop.simps [simp del]

definition quarter_tick :: "zone \<Rightarrow> Date \<Rightarrow> Date \<Rightarrow> int \<Rightarrow> int \<Rightarrow> Tick list" where
  "quarter_tick tz ps pe yr qm =
     (case makeDate tz yr qm 1 of
        None \<Rightarrow> []
      | Some d \<Rightarrow>
          if getTime tz ps \<le> getTime tz d \<and> getTime tz d \<le> getTime tz pe
          then [\<lparr> tick_date = Some d,
                  tick_label = ''Q'' @ show_int (qm div 3 + 1) @ '' '' @ show_int yr \<rparr>]
          else [])"

definition quarterly_ticks :: "zone \<Rightarrow> Date \<Rightarrow> Date \<Rightarrow> Tick list" where
  "quarterly_ticks tz ps pe =
     concat (map (\<lambda>yr. concat (map (quarter_tick tz ps pe yr) [0, 3, 6, 9]))
                 [YearFromDay ps .. YearFromDay pe])"

text \<open>The tick of the fallback: the date is a copy of \<open>projectStart\<close>; of an invalid
  date the month is \<open>NaN\<close>, so the label reads \<open>undefined NaN\<close>.\<close>

definition fallback_tick :: "Date option \<Rightarrow> Tick" where
  "fallback_tick ps =
     (case ps of
        Some d \<Rightarrow> month_tick d
      | None \<Rightarrow> \<lparr> tick_date = None, tick_label = ''undefined NaN'' \<rparr>)"

text \<open>\<open>getTickDates\<close> reads \<open>dayWidth\<close>, \<open>projectStart\<close> and \<open>projectEnd\<close>
  of the chart. A loop whose date or bound is invalid does not run (\<open>cur <= projectEnd\<close>
  is false), and the loop over the years does not run when a year is \<open>NaN\<close>.\<close>

definition getTickDates :: "zone \<Rightarrow> chart \<Rightarrow> Tick list" where
  "getTickDates tz c =
     (let pxPerWeek = js_mul (dayWidth c) (Fin 7);
          pxPerMonth = js_mul (dayWidth c) (Fin 30)
      in if js_ge pxPerWeek (Fin 40)
         then (case (projectStart c, projectEnd c) of
                 (Some ps, Some pe) \<Rightarrow>
                   (case TimeClip tz (setDate ps (DateFromDay ps - (WeekDay ps + 6) mod 7)) of
                      Some cur \<Rightarrow> weekly_loop tz cur pe []
                    | None \<Rightarrow> [])
               | _ \<Rightarrow> [])
         else if js_ge pxPerMonth (Fin 40)
         then (case (projectStart c, projectEnd c) of
                 (Some ps, Some pe) \<Rightarrow>
                   (case makeDate tz (YearFromDay ps) (MonthFromDay ps) 1 of
                      Some cur \<Rightarrow> monthly_loop tz cur pe []
                    | None \<Rightarrow> [])
               | _ \<Rightarrow> [])
         else (let ticks = (case (projectStart c, projectEnd c) of
                              (Some ps, Some pe) \<Rightarrow> quarterly_ticks tz ps pe
                            | _ \<Rightarrow> [])
               in if ticks = [] then [fallback_tick (projectStart c)] else ticks))"

section \<open>Rendering\<close>

text \<open>What a render pass puts on the page. An SVG element keeps its coordinates only
  (fill, stroke and fonts are styling); a coordinate is a number, written into the
  attribute as JavaScript prints it, \<open>NaN\<close> and \<open>Infinity\<close> included.\<close>

datatype path_cmd = M number number | H number | V number

datatype svg_el =
    Rect number number number number
  | Line number number number number
  | Text number number string
  | Path "path_cmd list"
  | G "svg_el list"

record left_row =
  lr_isPhase :: bool
  lr_isCollapsed :: bool
  lr_rowId :: string
  lr_toggleCollapsed :: "bool option"
  lr_name :: string
  lr_effort :: string

record svg_out =
  svg_width :: number
  svg_height :: number
  grid :: "svg_el list"
  bars :: "svg_el list"
  dependencies :: "svg_el list"

record page =
  left_rows :: "left_row list"
  header :: "svg_el list"
  svg :: svg_out
  title :: string

text \<open>The widths the page reports are integers.\<close>

record viewport =
  clientWidth :: int
  innerWidth :: int

subsection \<open>Left panel and timeline header\<close>

text \<open>Of a left row the model keeps the classes, the row id, the state of the toggle, the
  name and the effort; the cells with formatted dates are display formatting.\<close>

definition buildLeftRow :: "chart \<Rightarrow> row \<Rightarrow> left_row" where
  "buildLeftRow c row =
     (let isPhase = (rtype row = PhaseRow); d = rdata row
      in \<lparr> lr_isPhase = isPhase, lr_isCollapsed = (\<not> visible row), lr_rowId = data_id d,
           lr_toggleCollapsed = (if isPhase then Some (data_id d \<in> collapsedGroups c) else None),
           lr_name = data_name d, lr_effort = data_effort d \<rparr>)"

definition renderLeftPanel :: "chart \<Rightarrow> left_row list" where
  "renderLeftPanel c = map (buildLeftRow c) (rows c)"

definition renderTimelineHeader :: "zone \<Rightarrow> chart \<Rightarrow> svg_el list" where
  "renderTimelineHeader tz c =
     (let svgH = Fin TIMELINE_HEADER_H
      in [Rect (Fin 0) (Fin 0) (svgWidth c) svgH]
         @ concat (map (\<lambda>tick.
              let x = js_max (Fin 0) (dateToX tz (tick_date tick) (projectStart c) (dayWidth c))
              in [Line x (Fin 0) x svgH,
                  Text (js_add x (Fin 6)) (js_add (js_div svgH (Fin 2)) (Fin 4)) (tick_label tick)])
            (getTickDates tz c))
         @ [Line (Fin 0) (js_sub svgH (Fin 1)) (svgWidth c) (js_sub svgH (Fin 1))])"

subsection \<open>Bars\<close>

definition buildPhaseBar :: "zone \<Rightarrow> chart \<Rightarrow> row \<Rightarrow> number \<Rightarrow> svg_el" where
  "buildPhaseBar tz c row y =
     (let d = rdata row;
          x = dateToX tz (parseDate tz (data_start d)) (projectStart c) (dayWidth c);
          endX = js_add (dateToX tz (parseDate tz (data_end d)) (projectStart c) (dayWidth c))
                        (dayWidth c);
          w = js_max (js_sub endX x) (Fin 4);
          barY = js_add y (Fin 8);
          barH = js_sub (Fin ROW_HEIGHT) (Fin 16)
      in G [Rect x barY w barH])"

definition buildTaskBar :: "zone \<Rightarrow> chart \<Rightarrow> row \<Rightarrow> number \<Rightarrow> svg_el" where
  "buildTaskBar tz c row y =
     (let d = rdata row;
          x = dateToX tz (parseDate tz (data_start d)) (projectStart c) (dayWidth c);
          endX = js_add (dateToX tz (parseDate tz (data_end d)) (projectStart c) (dayWidth c))
                        (dayWidth c);
          w = js_max (js_sub endX x) (Fin 4);
          barY = js_add y (Fin 10);
          barH = js_sub (Fin ROW_HEIGHT) (Fin 20)
      in G [Rect x barY w barH])"

subsection \<open>Dependency arrows\<close>

text \<open>\<open>row.visibleY\<close> as a number: \<open>undefined\<close> becomes \<open>NaN\<close> in a sum.\<close>

definition visibleY_num :: "row \<Rightarrow> number" where
  "visibleY_num r = (case visibleY r of None \<Rightarrow> NaN | Some y \<Rightarrow> y)"

definition buildDependencyArrow :: "zone \<Rightarrow> chart \<Rightarrow> row \<Rightarrow> row \<Rightarrow> svg_el" where
  "buildDependencyArrow tz c fromRow toRow =
     (let fromD = rdata fromRow; toD = rdata toRow;
          fromX = js_add (dateToX tz (parseDate tz (data_end fromD)) (projectStart c) (dayWidth c))
                         (dayWidth c);
          fromY = js_add (visibleY_num fromRow) (js_div (Fin ROW_HEIGHT) (Fin 2));
          toX = dateToX tz (parseDate tz (data_start toD)) (projectStart c) (dayWidth c);
          toY = js_add (visibleY_num toRow) (js_div (Fin ROW_HEIGHT) (Fin 2))
      in Path
           (if js_le (js_add fromX (js_mul (Fin ELBOW) (Fin 2))) toX
            then [M fromX fromY, H (js_add fromX (Fin ELBOW)), V toY, H toX]
            else (let approachX = js_max (Fin ELBOW) (js_sub toX (Fin ELBOW));
                      detourY = (if js_lt fromY toY
                                 then js_add (js_add (visibleY_num fromRow) (Fin ROW_HEIGHT)) (Fin 4)
                                 else js_sub (visibleY_num fromRow) (Fin 4))
                  in [M fromX fromY, H (js_add fromX (Fin ELBOW)), V detourY, H approachX,
                      V toY, H toX])))"

text \<open>What a path draws: the vertices of the polyline that the commands \<open>M\<close>,
  \<open>H\<close> and \<open>V\<close> of SVG path data describe, and the points on it. Every segment is
  horizontal or vertical, so a point is on a segment when each of its coordinates lies
  between those of the ends.\<close>

fun walk :: "number \<times> number \<Rightarrow> path_cmd list \<Rightarrow> (number \<times> number) list" where
  "walk p [] = [p]"
| "walk (x, y) (H x' # cs) = (x, y) # walk (x', y) cs"
| "walk (x, y) (V y' # cs) = (x, y) # walk (x, y') cs"
| "walk p (M x' y' # cs) = walk (x', y') cs"

definition vertices :: "path_cmd list \<Rightarrow> (number \<times> number) list" where
  "vertices cmds = (case cmds of M x y # cs \<Rightarrow> walk (x, y) cs | _ \<Rightarrow> [])"

definition between :: "number \<Rightarrow> number \<Rightarrow> number \<Rightarrow> bool" where
  "between a b p \<longleftrightarrow> js_le a p \<and> js_le p b \<or> js_le b p \<and> js_le p a"

definition on_segment :: "number \<times> number \<Rightarrow> number \<times> number \<Rightarrow> number \<times> number \<Rightarrow> bool" where
  "on_segment a b p \<longleftrightarrow> between (fst a) (fst b) (fst p) \<and> between (snd a) (snd b) (snd p)"

fun on_polyline :: "(number \<times> number) list \<Rightarrow> number \<times> number \<Rightarrow> bool" where
  "on_polyline (a # b # rest) p \<longleftrightarrow> on_segment a b p \<or> on_polyline (b # rest) p"
| "on_polyline _ p \<longleftrightarrow> False"

text \<open>A point is inside a rectangle when it lies strictly between its edges.\<close>

fun inside :: "svg_el \<Rightarrow> number \<times> number \<Rightarrow> bool" where
  "inside (Rect x y w h) p \<longleftrightarrow>
     js_lt x (fst p) \<and> js_lt (fst p) (js_add x w) \<and> js_lt y (snd p) \<and> js_lt (snd p) (js_add y h)"
| "inside _ p \<longleftrightarrow> False"

subsection \<open>The SVG body\<close>

text \<open>A bar is the group element that \<open>buildPhaseBar\<close> or \<open>buildTaskBar\<close>
  returns; row backgrounds and separators are plain rectangles and lines.\<close>

fun is_bar :: "svg_el \<Rightarrow> bool" where
  "is_bar (G els) \<longleftrightarrow> True"
| "is_bar _ \<longleftrightarrow> False"

text \<open>The loop over the rows that draws the backgrounds and bars, with its counter
  \<open>visibleIdx\<close>. It stores \<open>visibleY\<close> into each visible row, so it returns the
  rows as well as the elements appended to the group of bars.\<close>

fun bars_loop :: "zone \<Rightarrow> chart \<Rightarrow> row list \<Rightarrow> nat \<Rightarrow> row list \<times> svg_el list" where
  "bars_loop tz c [] visibleIdx = ([], [])"
| "bars_loop tz c (row # rest) visibleIdx =
     (if \<not> visible row
      then (let (rs, els) = bars_loop tz c rest visibleIdx in (row # rs, els))
      else (let y = js_mul (Fin (real visibleIdx)) (Fin ROW_HEIGHT);
                bg = (if rtype row = TaskRow \<and> visibleIdx mod 2 = 1
                      then [Rect (Fin 0) y (svgWidth c) (Fin ROW_HEIGHT)] else []);
                sep = Line (Fin 0) (js_add y (Fin ROW_HEIGHT)) (svgWidth c) (js_add y (Fin ROW_HEIGHT));
                row' = row\<lparr>visibleY := Some y\<rparr>;
                bar = (if rtype row = PhaseRow then buildPhaseBar tz c row' y
                       else buildTaskBar tz c row' y);
                (rs, els) = bars_loop tz c rest (Suc visibleIdx)
            in (row' # rs, bg @ [sep, bar] @ els)))"

text \<open>The arrows of one dependency id of a row, of one row, and of all rows. A reference
  read from \<open>taskMap\<close> always points into \<open>rows\<close>.\<close>

definition dep_arrow :: "zone \<Rightarrow> chart \<Rightarrow> row \<Rightarrow> string \<Rightarrow> svg_el list" where
  "dep_arrow tz c row depId =
     (case taskMap c depId of
        None \<Rightarrow> []
      | Some i \<Rightarrow>
          if i < length (rows c) \<and> visible (rows c ! i)
          then [buildDependencyArrow tz c (rows c ! i) row]
          else [])"

definition row_arrows :: "zone \<Rightarrow> chart \<Rightarrow> row \<Rightarrow> svg_el list" where
  "row_arrows tz c row =
     (if rtype row \<noteq> TaskRow \<or> \<not> visible row then []
      else if data_dependsOn (rdata row) = [] then []
      else concat (map (dep_arrow tz c row) (data_dependsOn (rdata row))))"

definition renderSVG :: "zone \<Rightarrow> chart \<Rightarrow> chart \<times> svg_out" where
  "renderSVG tz c =
     (let visibleRows = filter visible (rows c);
          svgHeight = js_mul (Fin (real (length visibleRows))) (Fin ROW_HEIGHT);
          gridG = map (\<lambda>tick.
                    let x = js_max (Fin 0) (dateToX tz (tick_date tick) (projectStart c) (dayWidth c))
                    in Line x (Fin 0) x svgHeight)
                  (getTickDates tz c);
          (rs, barsG) = bars_loop tz c (rows c) 0;
          c' = c\<lparr>rows := rs\<rparr>;
          depsG = concat (map (row_arrows tz c') (rows c'))
      in (c', \<lparr> svg_width = svgWidth c, svg_height = svgHeight, grid = gridG,
                 bars = barsG, dependencies = depsG \<rparr>))"

subsection \<open>render, toggleGroup, loadGanttProject\<close>

text \<open>\<open>render\<close> reads the width of the right panel from the page (the viewport) and
  replaces the content of the left panel, of the header and of the SVG body. The day
  width is the quotient of two doubles, rounded; it is infinite or \<open>NaN\<close> when
  \<open>totalDays\<close> is 0 or \<open>NaN\<close>.\<close>

definition availableWidth :: "viewport \<Rightarrow> int" where
  "availableWidth vp = (if clientWidth vp \<noteq> 0 then clientWidth vp else innerWidth vp - 560)"

definition render :: "zone \<Rightarrow> viewport \<Rightarrow> chart \<Rightarrow> chart \<times> page" where
  "render tz vp c =
     (let c1 = c\<lparr>dayWidth := js_div (Fin (real_of_int (availableWidth vp))) (totalDays c),
                 svgWidth := Fin (real_of_int (availableWidth vp))\<rparr>;
          c2 = buildRows c1;
          c3 = buildTaskMap c2;
          left = renderLeftPanel c3;
          hd = renderTimelineHeader tz c3;
          (c4, body) = renderSVG tz c3
      in (c4, \<lparr> left_rows = left, header = hd, svg = body,
                 title = project_name (project (data c4)) \<rparr>))"

definition toggleGroup :: "zone \<Rightarrow> viewport \<Rightarrow> string \<Rightarrow> chart \<Rightarrow> chart \<times> page" where
  "toggleGroup tz vp groupId c =
     render tz vp
       (if groupId \<in> collapsedGroups c
        then c\<lparr>collapsedGroups := collapsedGroups c - {groupId}\<rparr>
        else c\<lparr>collapsedGroups := insert groupId (collapsedGroups c)\<rparr>)"

definition loadGanttProject :: "zone \<Rightarrow> viewport \<Rightarrow> schedule \<Rightarrow> chart \<times> page" where
  "loadGanttProject tz vp d = render tz vp (GanttChart tz d)"

section \<open>A dependency edge and the schedule without it\<close>

text \<open>A dependency id resolves in a chart when the task map gives a row for it and
  that row is visible; these are the two tests \<open>renderSVG\<close> makes before it draws an
  arrow. \<open>drop_dep tid depId\<close> is the schedule without the edge from \<open>depId\<close> to
  the task \<open>tid\<close>: the id is taken out of the \<open>dependsOn\<close> of the task.\<close>

definition drop_dep_task :: "string \<Rightarrow> string \<Rightarrow> task \<Rightarrow> task" where
  "drop_dep_task tid depId t =
     (if task_id t = tid then t\<lparr>dependsOn := removeAll depId (dependsOn t)\<rparr> else t)"

definition drop_dep_group :: "string \<Rightarrow> string \<Rightarrow> group \<Rightarrow> group" where
  "drop_dep_group tid depId g = g\<lparr>tasks := map (drop_dep_task tid depId) (tasks g)\<rparr>"

definition drop_dep :: "string \<Rightarrow> string \<Rightarrow> schedule \<Rightarrow> schedule" where
  "drop_dep tid depId d = d\<lparr>groups := map (drop_dep_group tid depId) (groups d)\<rparr>"

fun drop_dep_data :: "string \<Rightarrow> string \<Rightarrow> row_data \<Rightarrow> row_data" where
  "drop_dep_data tid depId (GroupData g) = GroupData (drop_dep_group tid depId g)"
| "drop_dep_data tid depId (TaskData t) = TaskData (drop_dep_task tid depId t)"

definition drop_dep_row :: "string \<Rightarrow> string \<Rightarrow> row \<Rightarrow> row" where
  "drop_dep_row tid depId r = r\<lparr>rdata := drop_dep_data tid depId (rdata r)\<rparr>"

definition resolves :: "chart \<Rightarrow> string \<Rightarrow> bool" where
  "resolves c depId =
     (case taskMap c depId of None \<Rightarrow> False
      | Some i \<Rightarrow> i < length (rows c) \<and> visible (rows c ! i))"

section \<open>Example schedules\<close>

text \<open>The schedule of the scenarios: a project from 2024-01-01 to 2024-01-31 shown in
  310 pixels. Task 1-2 starts well after its predecessor 1-1 ends and also names a task
  that does not exist; task 1-3 starts before 1-1 ends; task 1-4 ends before it starts;
  task 2-1 depends on a task of the other phase.\<close>

definition demo_task :: "string \<Rightarrow> string \<Rightarrow> string \<Rightarrow> string list \<Rightarrow> task" where
  "demo_task i s e deps =
     \<lparr> task_id = i, task_name = i, task_start = s, task_end = e, task_effort = ''1w'',
       dependsOn = deps \<rparr>"

definition demo :: schedule where
  "demo =
     \<lparr> project = \<lparr> project_name = ''Demo'', project_start = ''2024-01-01'',
                   project_end = ''2024-01-31'' \<rparr>,
       groups =
         [\<lparr> group_id = ''phase-1'', group_name = ''Phase 1'', group_start = ''2024-01-05'',
             group_end = ''2024-01-20'', group_effort = ''3w'',
             tasks = [demo_task ''task-1-1'' ''2024-01-05'' ''2024-01-10'' [],
                      demo_task ''task-1-2'' ''2024-01-15'' ''2024-01-20'' [''task-1-1'', ''task-9-9''],
                      demo_task ''task-1-3'' ''2024-01-08'' ''2024-01-12'' [''task-1-1''],
                      demo_task ''task-1-4'' ''2024-01-10'' ''2024-01-05'' []] \<rparr>,
          \<lparr> group_id = ''phase-2'', group_name = ''Phase 2'', group_start = ''2024-01-21'',
             group_end = ''2024-01-31'', group_effort = ''2w'',
             tasks = [demo_task ''task-2-1'' ''2024-01-21'' ''2024-01-25'' [''task-1-2'']] \<rparr>] \<rparr>"

text \<open>A task row as the flattener builds it.\<close>

definition task_row :: "string \<Rightarrow> string \<Rightarrow> string \<Rightarrow> row" where
  "task_row i s e =
     \<lparr> rtype = TaskRow, groupIdx = 0, taskIdx = Some 0, rdata = TaskData (demo_task i s e []),
       rowIndex = 1, visible = True, visibleY = None \<rparr>"

definition vp310 :: viewport where
  "vp310 = \<lparr> clientWidth = 310, innerWidth = 1000 \<rparr>"

text \<open>A project with one phase of two tasks, the second depending on the first, and a
  viewport of a given width.\<close>

definition two_tasks :: "string \<Rightarrow> string \<Rightarrow> string \<Rightarrow> string \<Rightarrow> string \<Rightarrow> string \<Rightarrow> schedule" where
  "two_tasks ps pe s1 e1 s2 e2 =
     \<lparr> project = \<lparr> project_name = ''Two tasks'', project_start = ps, project_end = pe \<rparr>,
       groups =
         [\<lparr> group_id = ''phase-1'', group_name = ''Phase 1'', group_start = ps,
             group_end = pe, group_effort = ''1w'',
             tasks = [demo_task ''task-1-1'' s1 e1 [],
                      demo_task ''task-1-2'' s2 e2 [''task-1-1'']] \<rparr>] \<rparr>"

definition viewport_of :: "int \<Rightarrow> viewport" where
  "viewport_of w = \<lparr> clientWidth = w, innerWidth = w + 560 \<rparr>"

section \<open>The chart before the SVG body is drawn\<close>

text \<open>\<open>laid_out vp c\<close> is the chart at the point where \<open>render\<close> calls
  \<open>renderLeftPanel\<close>: day width set, rows and task map built.\<close>

definition laid_out :: "viewport \<Rightarrow> chart \<Rightarrow> chart" where
  "laid_out vp c =
     buildTaskMap (buildRows
       (c\<lparr>dayWidth := js_div (Fin (real_of_int (availableWidth vp))) (totalDays c),
          svgWidth := Fin (real_of_int (availableWidth vp))\<rparr>))"

lemma render_laid_out:
  "render tz vp c =
     (fst (renderSVG tz (laid_out vp c)),
      \<lparr> left_rows = renderLeftPanel (laid_out vp c),
        header = renderTimelineHeader tz (laid_out vp c),
        svg = snd (renderSVG tz (laid_out vp c)),
        title = project_name (project (data c)) \<rparr>)"
proof -
  have "data (fst (renderSVG tz (laid_out vp c))) = data c"
    by (simp add: renderSVG_def Let_def split_beta laid_out_def buildTaskMap_def buildRows_def)
  then show ?thesis
    unfolding render_def laid_out_def Let_def split_beta by simp
qed

lemma renderSVG_parts:
  "fst (renderSVG tz c) = c\<lparr>rows := fst (bars_loop tz c (rows c) 0)\<rparr>"
  "bars (snd (renderSVG tz c)) = snd (bars_loop tz c (rows c) 0)"
  "dependencies (snd (renderSVG tz c)) =
     concat (map (row_arrows tz (c\<lparr>rows := fst (bars_loop tz c (rows c) 0)\<rparr>))
                 (fst (bars_loop tz c (rows c) 0)))"
  "svg_width (snd (renderSVG tz c)) = svgWidth c"
  by (simp_all add: renderSVG_def Let_def split_beta)

lemma laid_out_fields:
  "data (laid_out vp c) = data c"
  "projectStart (laid_out vp c) = projectStart c"
  "projectEnd (laid_out vp c) = projectEnd c"
  "totalDays (laid_out vp c) = totalDays c"
  "collapsedGroups (laid_out vp c) = collapsedGroups c"
  "svgWidth (laid_out vp c) = Fin (real_of_int (availableWidth vp))"
  "dayWidth (laid_out vp c) = js_div (Fin (real_of_int (availableWidth vp))) (totalDays c)"
  by (simp_all add: laid_out_def buildTaskMap_def buildRows_def)

section \<open>Properties of the rounding\<close>

text \<open>\<open>bit_length\<close> and \<open>binade\<close> are what their names say; rounding moves a number
  by at most \<open>2 ^ - 53\<close> of its size, and leaves an integer below \<open>2 ^ 53\<close> as it
  is.\<close>

lemma bit_length_upper: "n < 2 ^ bit_length n"
proof (induction n rule: bit_length.induct)
  case (1 n)
  show ?case
  proof (cases "n = 0")
    case True
    then show ?thesis by (simp add: bit_length.simps)
  next
    case False
    from 1 [OF False] have "n div 2 + 1 \<le> 2 ^ bit_length (n div 2)" by simp
    then have "2 * (n div 2) + 2 \<le> 2 * 2 ^ bit_length (n div 2)" by simp
    moreover have "n < 2 * (n div 2) + 2" by presburger
    ultimately show ?thesis
      using False by (subst bit_length.simps) simp
  qed
qed

lemma bit_length_lower: "0 < n \<Longrightarrow> 2 ^ (bit_length n - 1) \<le> n"
proof (induction n rule: bit_length.induct)
  case (1 n)
  show ?case
  proof (cases "n div 2 = 0")
    case True
    with "1.prems" have "n = 1" by presburger
    then show ?thesis by (simp add: bit_length.simps)
  next
    case False
    then have pos: "0 < n div 2" by simp
    with 1 have ih: "2 ^ (bit_length (n div 2) - 1) \<le> n div 2" by simp
    from pos have "0 < bit_length (n div 2)"
      by (subst bit_length.simps) simp
    then have "bit_length n - 1 = Suc (bit_length (n div 2) - 1)"
      using "1.prems" by (subst bit_length.simps) simp
    then have "(2::nat) ^ (bit_length n - 1) = 2 * 2 ^ (bit_length (n div 2) - 1)"
      by simp
    also have "\<dots> \<le> 2 * (n div 2)" using ih by simp
    also have "\<dots> \<le> n" by simp
    finally show ?thesis .
  qed
qed

lemma bit_length_pos: "0 < n \<Longrightarrow> 0 < bit_length n"
  by (subst bit_length.simps) simp

lemma bit_length_le: "n < 2 ^ k \<Longrightarrow> bit_length n \<le> k"
proof (cases "n = 0")
  case True
  then show ?thesis by (simp add: bit_length.simps)
next
  case False
  assume "n < 2 ^ k"
  moreover from False have "(2::nat) ^ (bit_length n - 1) \<le> n"
    by (intro bit_length_lower) simp
  ultimately have "(2::nat) ^ (bit_length n - 1) < 2 ^ k"
    by linarith
  then have "bit_length n - 1 < k"
    by (rule power_less_imp_less_exp [rotated]) simp
  then show ?thesis by simp
qed

lemma pow2_powi: "pow2 e = 2 powi e"
  by (simp add: pow2_def power_int_def field_simps)

lemma pow2_pos: "0 < pow2 e"
  by (simp add: pow2_def)

lemma pow2_add: "pow2 (a + b) = pow2 a * pow2 b"
  by (simp add: pow2_powi power_int_add)

lemma pow2_nat: "pow2 (int k) = 2 ^ k"
  by (simp add: pow2_def)

lemma pow2_minus: "pow2 (- e) = 1 / pow2 e"
  by (simp add: pow2_powi power_int_minus field_simps)

lemma round_even_of_int: "round_even (real_of_int m) = m"
  by (simp add: round_even_def)

lemma round_even_error: "\<bar>real_of_int (round_even x) - x\<bar> \<le> 1 / 2"
proof -
  have "real_of_int \<lfloor>x\<rfloor> \<le> x" "x < real_of_int \<lfloor>x\<rfloor> + 1"
    by linarith+
  then show ?thesis
    by (auto simp: round_even_def Let_def)
qed

lemma binade_lower:
  assumes "x \<noteq> 0"
  shows "pow2 (binade x) \<le> \<bar>x\<bar>"
proof (cases "1 \<le> \<bar>x\<bar>")
  case True
  define n where "n = nat \<lfloor>\<bar>x\<bar>\<rfloor>"
  from True have n: "0 < n" "real n \<le> \<bar>x\<bar>"
    unfolding n_def by (simp_all add: le_floor_iff)
  have "binade x = int (bit_length n - 1)"
    using True bit_length_pos [OF n(1)] by (simp add: binade_def n_def)
  then have "pow2 (binade x) = 2 ^ (bit_length n - 1)"
    by (simp add: pow2_nat)
  also have "\<dots> = real (2 ^ (bit_length n - 1))" by simp
  also have "\<dots> \<le> real n"
    using bit_length_lower [OF n(1)] by (simp only: of_nat_le_iff)
  finally show ?thesis using n(2) by linarith
next
  case False
  define y where "y = 1 / \<bar>x\<bar>"
  define n where "n = nat \<lfloor>y\<rfloor>"
  define k where "k = bit_length n - 1"
  from False assms have y: "1 < y" "0 < \<bar>x\<bar>"
    by (simp_all add: y_def)
  have "real_of_int \<lfloor>y\<rfloor> \<le> y" "y < real_of_int \<lfloor>y\<rfloor> + 1" "1 \<le> \<lfloor>y\<rfloor>"
    using y(1) by (simp_all add: le_floor_iff)
  then have n: "0 < n" "real n \<le> y" "y < real n + 1"
    unfolding n_def by simp_all
  have kk: "int (bit_length n) - 1 = int k"
    using bit_length_pos [OF n(1)] by (simp add: k_def)
  show ?thesis
  proof (cases "\<bar>x\<bar> * pow2 (int k) = 1")
    case True
    then have "binade x = - int k"
      using False by (simp add: binade_def Let_def y_def [symmetric] n_def [symmetric] kk)
    then have "pow2 (binade x) = 1 / 2 ^ k"
      by (simp add: pow2_minus pow2_nat)
    moreover from True have "\<bar>x\<bar> = 1 / 2 ^ k"
      by (simp add: pow2_nat field_simps)
    ultimately show ?thesis by simp
  next
    case neq: False
    then have "binade x = - (int k + 1)"
      using False by (simp add: binade_def Let_def y_def [symmetric] n_def [symmetric] kk)
    then have "binade x = - int (Suc k)"
      by simp
    then have b: "pow2 (binade x) = 1 / 2 ^ Suc k"
      by (simp only: pow2_minus pow2_nat)
    have "Suc k = bit_length n"
      using bit_length_pos [OF n(1)] by (simp add: k_def)
    then have "n + 1 \<le> 2 ^ Suc k"
      using bit_length_upper [of n] by simp
    then have "real (n + 1) \<le> real (2 ^ Suc k)"
      by (simp only: of_nat_le_iff)
    with n(3) have "y \<le> 2 ^ Suc k" by simp
    then have "1 / \<bar>x\<bar> \<le> 2 ^ Suc k" by (simp add: y_def)
    with y(2) have "1 / 2 ^ Suc k \<le> \<bar>x\<bar>"
      by (simp add: field_simps)
    with b show ?thesis by simp
  qed
qed

lemma fl_error: "\<bar>fl x - x\<bar> \<le> \<bar>x\<bar> / 2 ^ 53"
proof (cases "x = 0")
  case True
  then show ?thesis by (simp add: fl_def)
next
  case False
  define e where "e = binade x - 52"
  define m where "m = round_even (x / pow2 e)"
  have fl: "fl x = real_of_int m * pow2 e"
    using False by (simp add: fl_def Let_def e_def m_def)
  have "\<bar>real_of_int m - x / pow2 e\<bar> \<le> 1 / 2"
    unfolding m_def by (rule round_even_error)
  then have "\<bar>real_of_int m - x / pow2 e\<bar> * pow2 e \<le> 1 / 2 * pow2 e"
    using pow2_pos [of e] by (intro mult_right_mono) simp_all
  moreover have "\<bar>real_of_int m - x / pow2 e\<bar> * pow2 e = \<bar>real_of_int m * pow2 e - x\<bar>"
  proof -
    have "\<bar>real_of_int m - x / pow2 e\<bar> * pow2 e = \<bar>(real_of_int m - x / pow2 e) * pow2 e\<bar>"
      using pow2_pos [of e] by (simp add: abs_mult)
    also have "(real_of_int m - x / pow2 e) * pow2 e = real_of_int m * pow2 e - x"
      using pow2_pos [of e] by (simp add: field_simps)
    finally show ?thesis .
  qed
  ultimately have "\<bar>fl x - x\<bar> \<le> pow2 e / 2"
    by (simp add: fl)
  also have "pow2 e = pow2 (binade x) * pow2 (- 52)"
    unfolding e_def using pow2_add [of "binade x" "- 52"] by simp
  also have "pow2 (- 52) = 1 / 2 ^ 52"
    by (simp add: pow2_def)
  also have "pow2 (binade x) * (1 / 2 ^ 52) / 2 = pow2 (binade x) / 2 ^ 53"
    by simp
  also have "\<dots> \<le> \<bar>x\<bar> / 2 ^ 53"
    using binade_lower [OF False] by (simp add: divide_right_mono)
  finally show ?thesis .
qed

lemma fl_of_int:
  assumes "\<bar>n\<bar> < 2 ^ 53"
  shows "fl (real_of_int n) = real_of_int n"
proof (cases "n = 0")
  case True
  then show ?thesis by (simp add: fl_def)
next
  case False
  define b where "b = bit_length (nat \<bar>n\<bar>)"
  have pos: "0 < nat \<bar>n\<bar>" using False by simp
  have "nat \<bar>n\<bar> < 2 ^ 53"
    using assms by (simp add: nat_less_iff)
  then have b53: "b \<le> 53"
    unfolding b_def by (rule bit_length_le)
  have b1: "1 \<le> b"
    using bit_length_pos [OF pos] by (simp add: b_def)
  have abs: "\<bar>real_of_int n\<bar> = real_of_int \<bar>n\<bar>"
    by simp
  from False have "1 \<le> \<bar>n\<bar>"
    by simp
  then have "real_of_int 1 \<le> real_of_int \<bar>n\<bar>"
    by (simp only: of_int_le_iff)
  then have one: "1 \<le> \<bar>real_of_int n\<bar>"
    by simp
  have fl_abs: "\<lfloor>\<bar>real_of_int n\<bar>\<rfloor> = \<bar>n\<bar>"
    unfolding abs by (rule floor_of_int)
  have bin: "binade (real_of_int n) = int b - 1"
    using one by (simp only: binade_def if_True fl_abs b_def)
  define k where "k = 53 - b"
  have e: "binade (real_of_int n) - 52 = - int k"
    using b53 b1 by (simp add: bin k_def)
  have p: "pow2 (- int k) = 1 / 2 ^ k"
    by (simp add: pow2_minus pow2_nat)
  have "real_of_int n / pow2 (- int k) = real_of_int (n * 2 ^ k)"
    by (simp add: p)
  then have "round_even (real_of_int n / pow2 (- int k)) = n * 2 ^ k"
    by (simp only: round_even_of_int)
  then show ?thesis
    using False by (simp add: fl_def Let_def e p)
qed

lemma fl_numeral [simp]:
  "numeral k < (9007199254740992 :: int) \<Longrightarrow> fl (numeral k) = numeral k"
  "numeral k < (9007199254740992 :: int) \<Longrightarrow> fl (- numeral k) = - numeral k"
  "fl 0 = 0" "fl 1 = 1"
  using fl_of_int [of "numeral k"] fl_of_int [of "- numeral k"] fl_of_int [of 1]
  by (simp_all add: fl_def)

text \<open>The day width, the product with the number of days before the last one and the
  sum with the day width are three roundings; together they move the right edge of the
  last day by at most \<open>2 ^ - 51\<close> of the width.\<close>

lemma fl_error_nonneg:
  assumes "0 \<le> z"
  shows "z - z * (1 / 2 ^ 53) \<le> fl z" "fl z \<le> z + z * (1 / 2 ^ 53)"
proof -
  define d where "d = z * (1 / 2 ^ 53)"
  have "\<bar>fl z - z\<bar> \<le> d"
    using fl_error [of z] assms by (simp add: d_def)
  then show "z - z * (1 / 2 ^ 53) \<le> fl z" "fl z \<le> z + z * (1 / 2 ^ 53)"
    unfolding d_def [symmetric] by linarith+
qed

lemma right_edge_bound:
  fixes W :: real and n :: int
  assumes "0 \<le> W" "1 \<le> n"
  defines "dw \<equiv> fl (W / real_of_int n)"
  defines "x \<equiv> fl (real_of_int (n - 1) * dw)"
  defines "edge \<equiv> fl (x + dw)"
  shows "\<bar>edge - W\<bar> \<le> W / 2 ^ 51"
proof -
  define u :: real where "u = 1 / 2 ^ 53"
  have u: "0 \<le> u" "u \<le> 1 / 4"
    by (simp_all add: u_def)
  define q where "q = W / real_of_int n"
  define k where "k = real_of_int (n - 1)"
  define r where "r = k * q"
  have k: "0 \<le> k" using assms(2) by (simp add: k_def)
  have q: "0 \<le> q" using assms by (simp add: q_def)
  have r: "0 \<le> r" using k q by (simp add: r_def)
  have "real_of_int n * q = W"
    using assms(2) by (simp add: q_def)
  moreover have "real_of_int n = k + 1"
    by (simp add: k_def)
  ultimately have W: "W = r + q"
    by (simp add: r_def algebra_simps)
  define A where "A = r * u"
  define B where "B = q * u"
  define C where "C = A * u"
  have A: "0 \<le> A" "A \<le> r"
    using r u by (simp_all add: A_def mult_left_le)
  have B: "0 \<le> B" "B \<le> q"
    using q u by (simp_all add: B_def mult_left_le)
  have C: "0 \<le> C" "4 * C \<le> A"
  proof -
    show "0 \<le> C" using A(1) u(1) by (simp add: C_def)
    have "A * u \<le> A * (1 / 4)"
      using u(2) A(1) by (rule mult_left_mono)
    then show "4 * C \<le> A" by (simp add: C_def)
  qed
  have dw: "q - B \<le> dw" "dw \<le> q + B"
    using fl_error_nonneg [OF q] by (simp_all add: dw_def q_def u_def B_def)
  have dw0: "0 \<le> dw" using dw(1) B(2) by linarith
  define p where "p = k * dw"
  have p0: "0 \<le> p" using k dw0 by (simp add: p_def)
  have "k * (q - q * u) \<le> k * dw" "k * dw \<le> k * (q + q * u)"
    using dw k unfolding B_def by (simp_all add: mult_left_mono)
  then have p: "r - A \<le> p" "p \<le> r + A"
    by (simp_all add: p_def r_def A_def algebra_simps)
  define D where "D = p * u"
  have D: "0 \<le> D" "D \<le> p"
    using p0 u by (simp_all add: D_def mult_left_le)
  have "p * u \<le> (r + A) * u"
    using p(2) u(1) by (rule mult_right_mono)
  then have D2: "D \<le> A + C"
    by (simp add: D_def A_def C_def algebra_simps)
  have x: "p - D \<le> x" "x \<le> p + D"
    using fl_error_nonneg [OF p0] by (simp_all add: x_def p_def k_def u_def D_def)
  have x0: "0 \<le> x" using x(1) D(2) by linarith
  define s where "s = x + dw"
  have s0: "0 \<le> s" using x0 dw0 by (simp add: s_def)
  have s: "W - (2 * A + C + B) \<le> s" "s \<le> W + (2 * A + C + B)"
    using x p dw D2 unfolding s_def W by linarith+
  define E where "E = s * u"
  have e: "s - E \<le> edge" "edge \<le> s + E"
    using fl_error_nonneg [OF s0] by (simp_all add: edge_def s_def u_def E_def)
  define T where "T = (2 * A + C + B) * u"
  have "s * u \<le> (r + q + (2 * A + C + B)) * u"
    using s(2) u(1) unfolding W by (rule mult_right_mono)
  then have E1: "E \<le> A + B + T"
    by (simp add: E_def A_def B_def T_def algebra_simps)
  have "0 \<le> 2 * A + C + B"
    using A(1) B(1) C(1) by simp
  with u(2) have "(2 * A + C + B) * u \<le> (2 * A + C + B) * (1 / 4)"
    by (rule mult_left_mono)
  then have E2: "4 * T \<le> 2 * A + C + B"
    by (simp add: T_def)
  have "edge - W \<le> 4 * A + 4 * B"
    using e(2) s(2) E1 E2 A(1) B(1) C by linarith
  moreover have "W - edge \<le> 4 * A + 4 * B"
    using e(1) s(1) E1 E2 A(1) B(1) C by linarith
  ultimately have "\<bar>edge - W\<bar> \<le> 4 * A + 4 * B"
    by linarith
  also have "4 * A + 4 * B = W / 2 ^ 51"
    by (simp add: A_def B_def W u_def algebra_simps)
  finally show ?thesis .
qed

section \<open>Rows and fields of a rendered chart\<close>

lemma push_tasks_append:
  "push_tasks collapsed gi ti ts (rs, n) =
     (rs @ map (\<lambda>k. \<lparr> rtype = TaskRow, groupIdx = gi, taskIdx = Some (ti + k), rdata = TaskData (ts ! k),
                rowIndex = n + k, visible = (\<not> collapsed), visibleY = None \<rparr>) [0..<length ts],
      n + length ts)"
proof (induction ts arbitrary: ti rs n)
  case Nil
  then show ?case by simp
next
  case (Cons t ts)
  have "[0..<length (t # ts)] = 0 # map Suc [0..<length ts]"
    by (simp add: upt_conv_Cons map_Suc_upt del: upt_Suc)
  then show ?case
    by (simp add: Cons.IH comp_def del: upt_Suc)
qed

lemma push_groups_flatten:
  "push_groups cg gi gs (rs, n) = (rs @ flatten cg gi n gs, n + length (flatten cg gi n gs))"
proof (induction gs arbitrary: gi rs n)
  case Nil
  then show ?case by simp
next
  case (Cons g gs)
  show ?case
    by (simp add: Let_def push_tasks_append Cons.IH del: upt_Suc)
qed

lemma rows_buildRows: "rows (buildRows c) = flatten (collapsedGroups c) 0 0 (groups (data c))"
  by (simp add: buildRows_def push_groups_flatten)

lemma flatten_proj:
  "map (\<lambda>r. (rtype r, rdata r, visible r)) (flatten cg gi n gs) =
     concat (map (\<lambda>g. (PhaseRow, GroupData g, True)
                      # map (\<lambda>t. (TaskRow, TaskData t, group_id g \<notin> cg)) (tasks g)) gs)"
proof (induction gs arbitrary: gi n)
  case Nil
  then show ?case by simp
next
  case (Cons g gs)
  have "map (\<lambda>k. (TaskRow, TaskData (tasks g ! k), group_id g \<notin> cg)) [0..<length (tasks g)]
      = map (\<lambda>t. (TaskRow, TaskData t, group_id g \<notin> cg)) (tasks g)"
    by (rule nth_equalityI) simp_all
  then show ?case
    by (simp add: Cons.IH comp_def del: upt_Suc)
qed

lemma rows_laid_out: "rows (laid_out vp c) = flatten (collapsedGroups c) 0 0 (groups (data c))"
  by (simp add: laid_out_def buildTaskMap_def buildRows_def push_groups_flatten)

lemma taskMap_laid_out:
  "taskMap (laid_out vp c) = taskMap_loop (flatten (collapsedGroups c) 0 0 (groups (data c))) 0 Map.empty"
  by (simp add: laid_out_def buildTaskMap_def buildRows_def push_groups_flatten)

lemma render_fst_fields:
  "data (fst (render tz vp c)) = data c"
  "projectStart (fst (render tz vp c)) = projectStart c"
  "projectEnd (fst (render tz vp c)) = projectEnd c"
  "totalDays (fst (render tz vp c)) = totalDays c"
  "collapsedGroups (fst (render tz vp c)) = collapsedGroups c"
  "svgWidth (fst (render tz vp c)) = Fin (real_of_int (availableWidth vp))"
  "dayWidth (fst (render tz vp c)) = js_div (Fin (real_of_int (availableWidth vp))) (totalDays c)"
  by (simp_all add: render_laid_out renderSVG_parts laid_out_fields)

lemma bars_loop_strip:
  "map (\<lambda>r. r\<lparr>visibleY := None\<rparr>) (fst (bars_loop tz c rs k)) = map (\<lambda>r. r\<lparr>visibleY := None\<rparr>) rs"
  by (induction rs arbitrary: k) (simp_all add: split_beta Let_def)

lemma bars_loop_visible:
  "map visible (fst (bars_loop tz c rs k)) = map visible rs"
  by (induction rs arbitrary: k) (simp_all add: split_beta Let_def)

lemma bars_loop_length: "length (fst (bars_loop tz c rs k)) = length rs"
  using arg_cong [OF bars_loop_visible, of length] by simp

lemma bars_loop_proj:
  "map (\<lambda>r. (rtype r, rdata r, visible r)) (fst (bars_loop tz c rs k))
     = map (\<lambda>r. (rtype r, rdata r, visible r)) rs"
  by (induction rs arbitrary: k) (simp_all add: split_beta Let_def)

lemma bars_loop_offsets:
  "map visibleY (filter visible (fst (bars_loop tz c rs k)))
     = map (\<lambda>i. Some (js_mul (Fin (real i)) (Fin ROW_HEIGHT))) [k..<k + length (filter visible rs)]"
proof (induction rs arbitrary: k)
  case Nil
  then show ?case by simp
next
  case (Cons row rest)
  show ?case
  proof (cases "visible row")
    case True
    have "[k..<k + Suc (length (filter visible rest))] = k # [Suc k..<Suc k + length (filter visible rest)]"
      by (simp add: upt_conv_Cons del: upt_Suc)
    with True show ?thesis
      by (simp add: split_beta Let_def Cons.IH del: upt_Suc)
  next
    case False
    then show ?thesis
      by (simp add: split_beta Let_def Cons.IH del: upt_Suc)
  qed
qed

lemma bars_loop_filter_strip:
  "map (\<lambda>r. r\<lparr>visibleY := None\<rparr>) (filter visible (fst (bars_loop tz c rs k)))
     = filter visible (map (\<lambda>r. r\<lparr>visibleY := None\<rparr>) rs)"
  by (induction rs arbitrary: k) (simp_all add: split_beta Let_def)

lemma bars_loop_bars:
  "filter is_bar (snd (bars_loop tz c rs k)) =
     map (\<lambda>(i, r). if rtype r = PhaseRow
                    then buildPhaseBar tz c r (js_mul (Fin (real i)) (Fin ROW_HEIGHT))
                    else buildTaskBar tz c r (js_mul (Fin (real i)) (Fin ROW_HEIGHT)))
         (enumerate k (filter visible (fst (bars_loop tz c rs k))))"
proof (induction rs arbitrary: k)
  case Nil
  then show ?case by simp
next
  case (Cons row rest)
  have bar: "is_bar (buildPhaseBar tz c r y)" "is_bar (buildTaskBar tz c r y)" for r y
    by (simp_all add: buildPhaseBar_def buildTaskBar_def Let_def)
  show ?case
    by (simp add: split_beta Let_def Cons.IH bar)
qed

text \<open>The rows a render pass leaves in the chart are the rows of the schedule in
  document order, every phase row visible and a task row visible unless its group is
  collapsed.\<close>

lemma rows_render_document_order:
  "map (\<lambda>r. (rtype r, rdata r, visible r)) (rows (fst (render tz vp c)))
     = concat (map (\<lambda>g. (PhaseRow, GroupData g, True)
                        # map (\<lambda>t. (TaskRow, TaskData t, group_id g \<notin> collapsedGroups c)) (tasks g))
                   (groups (data c)))"
  by (simp add: render_laid_out renderSVG_parts bars_loop_proj rows_laid_out flatten_proj)

lemma visible_rows_document_order:
  assumes "map (\<lambda>r. (rtype r, rdata r, visible r)) rs
     = concat (map (\<lambda>g. (PhaseRow, GroupData g, True)
                        # map (\<lambda>t. (TaskRow, TaskData t, P g)) (tasks g)) gs)"
  shows "map (\<lambda>r. (rtype r, rdata r)) (filter visible rs)
     = concat (map (\<lambda>g. (PhaseRow, GroupData g)
                        # (if P g then map (\<lambda>t. (TaskRow, TaskData t)) (tasks g) else [])) gs)"
proof -
  have "map (\<lambda>r. (rtype r, rdata r)) (filter visible rs)
      = map (\<lambda>(a, b, v). (a, b)) (filter (\<lambda>(a, b, v). v) (map (\<lambda>r. (rtype r, rdata r, visible r)) rs))"
    by (induction rs) simp_all
  also have "\<dots> = concat (map (\<lambda>g. (PhaseRow, GroupData g)
                        # (if P g then map (\<lambda>t. (TaskRow, TaskData t)) (tasks g) else [])) gs)"
    unfolding assms by (induction gs) (simp_all add: filter_map comp_def)
  finally show ?thesis .
qed

section \<open>daysBetween\<close>

lemma daysBetween_int:
  "daysBetween tz a b = (getTime tz b - getTime tz a + 43200000) div 86400000"
proof -
  have "real_of_int (getTime tz b - getTime tz a) / 86400000 + 1 / 2
      = real_of_int (getTime tz b - getTime tz a + 43200000) / real_of_int 86400000"
    by (simp add: field_simps)
  then show ?thesis
    unfolding daysBetween_def Math_round_def
    by (simp only: floor_divide_of_int_eq)
qed

lemma daysBetween_nonneg: "getTime tz a \<le> getTime tz b \<Longrightarrow> 0 \<le> daysBetween tz a b"
  by (simp add: daysBetween_int pos_imp_zdiv_nonneg_iff)

lemma daysBetween_calendar:
  assumes "\<bar>displacement tz b - displacement tz a\<bar> < 43200000"
  shows "daysBetween tz a b = b - a"
proof -
  define r where "r = displacement tz b - displacement tz a + 43200000"
  have "getTime tz b - getTime tz a + 43200000 = 86400000 * (b - a) + r"
    by (simp add: getTime_def msPerDay_def r_def algebra_simps)
  moreover have "0 \<le> r" "r < 86400000"
    using assms by (simp_all add: r_def)
  ultimately show ?thesis
    unfolding daysBetween_int by (simp only: int_div_pos_eq)
qed

text \<open>
  C6: for two local midnights whose displacements differ by less than half a day (the
  drift daylight saving causes is an hour), \<open>daysBetween\<close> is the difference of the
  calendar days, so \<open>daysBetween a b = - daysBetween b a\<close>; and when \<open>a\<close> is not
  after \<open>b\<close> the result is not negative (this part needs nothing of the zone).
\<close>

theorem daysBetween_antisymmetric:
  assumes "\<bar>displacement tz b - displacement tz a\<bar> < 43200000"
  shows "(getTime tz a \<le> getTime tz b \<longrightarrow> 0 \<le> daysBetween tz a b)
       \<and> daysBetween tz a b = - daysBetween tz b a
       \<and> daysBetween tz a b = b - a"
proof -
  from assms have "\<bar>displacement tz a - displacement tz b\<bar> < 43200000"
    by simp
  then have "daysBetween tz b a = a - b"
    by (rule daysBetween_calendar)
  with daysBetween_calendar [OF assms] daysBetween_nonneg [of tz a b] show ?thesis
    by simp
qed

theorem daysBetween_antisymmetric_witness:
  "\<bar>displacement summer_zone 100 - displacement summer_zone 80\<bar> < 43200000
   \<and> getTime summer_zone 80 \<le> getTime summer_zone 100
   \<and> 0 \<le> daysBetween summer_zone 80 100
   \<and> daysBetween summer_zone 80 100 = - daysBetween summer_zone 100 80
   \<and> daysBetween summer_zone 80 100 = 100 - 80"
proof -
  have h: "\<bar>displacement summer_zone 100 - displacement summer_zone 80\<bar> < 43200000"
    by (simp add: displacement.rep_eq summer_zone.rep_eq)
  have le: "getTime summer_zone 80 \<le> getTime summer_zone 100"
    by (simp add: getTime_def msPerDay_def displacement.rep_eq summer_zone.rep_eq)
  from daysBetween_antisymmetric [OF h] h le show ?thesis
    by blast
qed

text \<open>Rounding is to the nearest integer with halves rounded up, as \<open>Math.round\<close>
  does: at a drift of exactly half a day the two directions differ.\<close>

lemma half_day_drift:
  "getTime tz b - getTime tz a = 43200000 \<Longrightarrow>
     daysBetween tz a b = 1 \<and> daysBetween tz b a = 0"
  by (simp add: daysBetween_int)

section \<open>Bars are at least 4 pixels wide\<close>

lemma js_max_floor:
  "js_max a (Fin 4) = NaN \<longleftrightarrow> a = NaN"
  "js_max a (Fin 4) = NaN \<or> js_le (Fin 4) (js_max a (Fin 4))"
  by (cases a; simp)+

lemma parse_jan:
  "parseDate utc ''2024-01-01'' = Some 19723"
  "parseDate utc ''2024-01-02'' = Some 19724"
  "parseDate utc ''2024-01-05'' = Some 19727"
  "parseDate utc ''2024-01-06'' = Some 19728"
  "parseDate utc ''2024-01-10'' = Some 19732"
  "parseDate utc ''2024-01-12'' = Some 19734"
  "parseDate utc ''2024-01-16'' = Some 19738"
  "parseDate utc ''2024-01-20'' = Some 19742"
  "parseDate utc ''2024-01-25'' = Some 19747"
  "parseDate utc ''2024-01-26'' = Some 19748"
  "parseDate utc ''2024-01-30'' = Some 19752"
  "parseDate utc ''2024-01-31'' = Some 19753"
  "parseDate utc ''2024-02-14'' = Some 19767"
  by (simp_all add: parseDate_def Number_def trim_def is_space_def decimal_literal_def
      unsigned_decimal_def is_digit_def digit_of_def exponent_part_def scale10_def Let_def
      js_sub_def newDate_def ToInteger_def makeDate_def TimeClip_def MakeDay_def DayFromYear_def
      InLeapYear_def monthStart_def getTime_def msPerDay_def utc.rep_eq displacement.rep_eq)

lemma daysBetween_utc: "daysBetween utc a b = b - a"
  by (rule daysBetween_calendar) (simp add: displacement.rep_eq utc.rep_eq)

lemma demo_chart:
  "projectStart (GanttChart utc demo) = Some 19723"
  "projectEnd (GanttChart utc demo) = Some 19753"
  "totalDays (GanttChart utc demo) = Fin 31"
  by (simp_all add: GanttChart_def Let_def demo_def parse_jan daysBetween_num_def daysBetween_utc)

text \<open>
  C10: the bars of a render pass are, in order, one for each visible row of the chart,
  and the visible rows are those of the schedule in document order; the bar of a row is
  a rectangle from \<open>x\<close>, the pixel of its start date, with the width
  \<open>Math.max(endX - x, 4)\<close>, \<open>endX\<close> being the pixel of its end date plus one day.
  That width is \<open>NaN\<close> only when \<open>endX - x\<close> is, and is otherwise at least 4; for a
  project start and row dates that are valid dates and a number of project days that is
  not 0 it is a finite number of at least 4, also when the end date is the start date or
  lies before it.
\<close>

theorem rendered_bar_width:
  fixes tz :: zone and vp :: viewport and c :: chart
  defines "c' \<equiv> fst (render tz vp c)"
  defines "x \<equiv> \<lambda>r. dateToX tz (parseDate tz (data_start (rdata r))) (projectStart c') (dayWidth c')"
  defines "endX \<equiv> \<lambda>r. js_add (dateToX tz (parseDate tz (data_end (rdata r))) (projectStart c')
                                   (dayWidth c')) (dayWidth c')"
  defines "w \<equiv> \<lambda>r. js_max (js_sub (endX r) (x r)) (Fin 4)"
  shows "filter is_bar (bars (svg (snd (render tz vp c))))
           = map (\<lambda>(k, r). G [Rect (x r)
                                  (js_add (js_mul (Fin (real k)) (Fin ROW_HEIGHT))
                                          (Fin (if rtype r = PhaseRow then 8 else 10)))
                                  (w r)
                                  (js_sub (Fin ROW_HEIGHT) (Fin (if rtype r = PhaseRow then 16 else 20)))])
               (enumerate 0 (filter visible (rows c')))
       \<and> map (\<lambda>r. (rtype r, rdata r)) (filter visible (rows c'))
           = concat (map (\<lambda>g. (PhaseRow, GroupData g)
                              # (if group_id g \<notin> collapsedGroups c
                                 then map (\<lambda>t. (TaskRow, TaskData t)) (tasks g) else []))
                         (groups (data c)))
       \<and> (\<forall>r. (w r = NaN \<longleftrightarrow> js_sub (endX r) (x r) = NaN) \<and> (w r = NaN \<or> js_le (Fin 4) (w r)))
       \<and> (\<forall>r ps n s e. projectStart c = Some ps \<and> totalDays c = Fin n \<and> n \<noteq> 0
              \<and> parseDate tz (data_start (rdata r)) = Some s
              \<and> parseDate tz (data_end (rdata r)) = Some e
            \<longrightarrow> (\<exists>v. w r = Fin v \<and> 4 \<le> v))"
proof -
  let ?L = "laid_out vp c"
  have c': "c' = ?L\<lparr>rows := fst (bars_loop tz ?L (rows ?L) 0)\<rparr>"
    by (simp add: c'_def render_laid_out renderSVG_parts)
  have bar: "(if rtype r = PhaseRow then buildPhaseBar tz ?L r y else buildTaskBar tz ?L r y)
      = G [Rect (x r) (js_add y (Fin (if rtype r = PhaseRow then 8 else 10))) (w r)
                (js_sub (Fin ROW_HEIGHT) (Fin (if rtype r = PhaseRow then 16 else 20)))]" for r y
    by (simp add: buildPhaseBar_def buildTaskBar_def Let_def x_def endX_def w_def c')
  have "filter is_bar (bars (svg (snd (render tz vp c))))
      = filter is_bar (snd (bars_loop tz ?L (rows ?L) 0))"
    by (simp add: render_laid_out renderSVG_parts)
  also have "\<dots> = map (\<lambda>(k, r). G [Rect (x r)
                                  (js_add (js_mul (Fin (real k)) (Fin ROW_HEIGHT))
                                          (Fin (if rtype r = PhaseRow then 8 else 10)))
                                  (w r)
                                  (js_sub (Fin ROW_HEIGHT) (Fin (if rtype r = PhaseRow then 16 else 20)))])
               (enumerate 0 (filter visible (rows c')))"
    unfolding bars_loop_bars bar by (simp add: c')
  finally have one: "filter is_bar (bars (svg (snd (render tz vp c))))
           = map (\<lambda>(k, r). G [Rect (x r)
                                  (js_add (js_mul (Fin (real k)) (Fin ROW_HEIGHT))
                                          (Fin (if rtype r = PhaseRow then 8 else 10)))
                                  (w r)
                                  (js_sub (Fin ROW_HEIGHT) (Fin (if rtype r = PhaseRow then 16 else 20)))])
               (enumerate 0 (filter visible (rows c')))" .
  have two: "map (\<lambda>r. (rtype r, rdata r)) (filter visible (rows c'))
           = concat (map (\<lambda>g. (PhaseRow, GroupData g)
                              # (if group_id g \<notin> collapsedGroups c
                                 then map (\<lambda>t. (TaskRow, TaskData t)) (tasks g) else []))
                         (groups (data c)))"
    unfolding c'_def by (rule visible_rows_document_order) (rule rows_render_document_order)
  have three: "(w r = NaN \<longleftrightarrow> js_sub (endX r) (x r) = NaN) \<and> (w r = NaN \<or> js_le (Fin 4) (w r))" for r
    unfolding w_def using js_max_floor [of "js_sub (endX r) (x r)"] by simp
  have four: "\<exists>v. w r = Fin v \<and> 4 \<le> v"
    if "projectStart c = Some ps" "totalDays c = Fin n" "n \<noteq> 0"
      "parseDate tz (data_start (rdata r)) = Some s" "parseDate tz (data_end (rdata r)) = Some e"
    for r ps n s e
    using that
    by (simp add: w_def endX_def x_def c'_def render_fst_fields dateToX_def daysBetween_num_def
        js_sub_def)
  from one two three four show ?thesis
    by blast
qed

text \<open>Witness: task 1-4 of the demo project, which ends five days before it starts.\<close>

theorem rendered_bar_width_witness:
  "projectStart (GanttChart utc demo) = Some 19723
   \<and> totalDays (GanttChart utc demo) = Fin 31 \<and> (31 :: real) \<noteq> 0
   \<and> parseDate utc (data_start (rdata (task_row ''task-1-4'' ''2024-01-10'' ''2024-01-05''))) = Some 19732
   \<and> parseDate utc (data_end (rdata (task_row ''task-1-4'' ''2024-01-10'' ''2024-01-05''))) = Some 19727
   \<and> (\<exists>v. js_max
             (js_sub
                (js_add (dateToX utc (parseDate utc (data_end (rdata (task_row ''task-1-4'' ''2024-01-10'' ''2024-01-05''))))
                           (projectStart (fst (render utc vp310 (GanttChart utc demo))))
                           (dayWidth (fst (render utc vp310 (GanttChart utc demo)))))
                        (dayWidth (fst (render utc vp310 (GanttChart utc demo)))))
                (dateToX utc (parseDate utc (data_start (rdata (task_row ''task-1-4'' ''2024-01-10'' ''2024-01-05''))))
                   (projectStart (fst (render utc vp310 (GanttChart utc demo))))
                   (dayWidth (fst (render utc vp310 (GanttChart utc demo))))))
             (Fin 4) = Fin v \<and> 4 \<le> v)
   \<and> dayWidth (fst (render utc vp310 (GanttChart utc demo))) = Fin 10
   \<and> js_max (js_sub (js_add (dateToX utc (Some 19727) (Some 19723) (Fin 10)) (Fin 10))
                     (dateToX utc (Some 19732) (Some 19723) (Fin 10))) (Fin 4) = Fin 4"
proof -
  have h: "projectStart (GanttChart utc demo) = Some 19723"
    "totalDays (GanttChart utc demo) = Fin 31" "(31 :: real) \<noteq> 0"
    "parseDate utc (data_start (rdata (task_row ''task-1-4'' ''2024-01-10'' ''2024-01-05''))) = Some 19732"
    "parseDate utc (data_end (rdata (task_row ''task-1-4'' ''2024-01-10'' ''2024-01-05''))) = Some 19727"
    by (simp_all add: demo_chart task_row_def demo_task_def parse_jan)
  have dw: "dayWidth (fst (render utc vp310 (GanttChart utc demo))) = Fin 10"
    by (simp add: render_fst_fields demo_chart availableWidth_def vp310_def)
  have ev: "js_max (js_sub (js_add (dateToX utc (Some 19727) (Some 19723) (Fin 10)) (Fin 10))
                     (dateToX utc (Some 19732) (Some 19723) (Fin 10))) (Fin 4) = Fin 4"
    by (simp add: dateToX_def daysBetween_num_def daysBetween_utc js_sub_def)
  from rendered_bar_width [of utc vp310 "GanttChart utc demo"] h dw ev show ?thesis
    by blast
qed

section \<open>Row flattening is document order\<close>

lemma flatten_rowIndex:
  "map rowIndex (flatten cg gi n gs) = [n..<n + length (flatten cg gi n gs)]"
proof (induction gs arbitrary: gi n)
  case Nil
  then show ?case by simp
next
  case (Cons g gs)
  have a: "map (\<lambda>k. Suc n + k) [0..<length (tasks g)] = [Suc n..<Suc n + length (tasks g)]"
    using map_add_upt [of "Suc n" "length (tasks g)"]
    by (simp only: add.commute)
  have b: "[n..<n + (Suc (length (tasks g)) + m)]
      = n # [Suc n..<Suc n + length (tasks g)]
          @ [Suc n + length (tasks g)..<Suc n + length (tasks g) + m]" for m
  proof -
    have "[n..<n + (Suc (length (tasks g)) + m)] = n # [Suc n..<n + (Suc (length (tasks g)) + m)]"
      by (simp add: upt_conv_Cons del: upt_Suc)
    moreover have "n + (Suc (length (tasks g)) + m) = Suc n + length (tasks g) + m"
      by simp
    moreover have "[Suc n..<Suc n + length (tasks g) + m]
        = [Suc n..<Suc n + length (tasks g)]
          @ [Suc n + length (tasks g)..<Suc n + length (tasks g) + m]"
      by (rule upt_add_eq_append) simp
    ultimately show ?thesis
      by (simp only:)
  qed
  have "map rowIndex (flatten cg gi n (g # gs))
      = n # map (\<lambda>k. Suc n + k) [0..<length (tasks g)]
          @ map rowIndex (flatten cg (Suc gi) (Suc n + length (tasks g)) gs)"
    by (simp add: comp_def del: upt_Suc)
  also have "\<dots> = n # [Suc n..<Suc n + length (tasks g)]
          @ [Suc n + length (tasks g)..<Suc n + length (tasks g)
               + length (flatten cg (Suc gi) (Suc n + length (tasks g)) gs)]"
    by (simp only: a Cons.IH)
  also have "\<dots> = [n..<n + (Suc (length (tasks g))
               + length (flatten cg (Suc gi) (Suc n + length (tasks g)) gs))]"
    by (simp only: b)
  also have "\<dots> = [n..<n + length (flatten cg gi n (g # gs))]"
    by (simp del: upt_Suc)
  finally show ?case .
qed

text \<open>
  C3: for every schedule and collapsed set the flattener emits, for each group in schedule
  order, one phase row and then one task row for each task in group order; the row
  indices are 0, 1, 2, ... in that order; every phase row is visible, and a task row is
  visible exactly when the id of its group is not in the collapsed set.
\<close>

theorem buildRows_document_order:
  "map (\<lambda>r. (rtype r, rdata r, visible r)) (rows (buildRows c)) =
     concat (map (\<lambda>g. (PhaseRow, GroupData g, True)
                      # map (\<lambda>t. (TaskRow, TaskData t, group_id g \<notin> collapsedGroups c)) (tasks g))
                 (groups (data c)))
   \<and> map rowIndex (rows (buildRows c)) = [0..<length (rows (buildRows c))]"
  using flatten_rowIndex [of "collapsedGroups c" 0 0 "groups (data c)"]
  by (simp add: rows_buildRows flatten_proj)

section \<open>A render pass depends on schedule, collapsed set and width only\<close>

lemma laid_out_cong:
  assumes "data c = data c'" "projectStart c = projectStart c'" "projectEnd c = projectEnd c'"
    "totalDays c = totalDays c'" "collapsedGroups c = collapsedGroups c'"
    "availableWidth vp = availableWidth vp'"
  shows "laid_out vp c = laid_out vp' c'"
  unfolding laid_out_def buildRows_def buildTaskMap_def assms(6)
  using assms(1-5) by (cases c; cases c') simp

lemma render_cong:
  assumes "data c = data c'" "projectStart c = projectStart c'" "projectEnd c = projectEnd c'"
    "totalDays c = totalDays c'" "collapsedGroups c = collapsedGroups c'"
    "availableWidth vp = availableWidth vp'"
  shows "render tz vp c = render tz vp' c'"
  using laid_out_cong [OF assms] assms(1) by (simp add: render_laid_out)

text \<open>
  C9: the result of a render pass, the chart state and the page with rows, visible rows
  and bars, is the same for two viewports of the same available width whatever day
  width, SVG width, rows and task map an earlier pass left in the chart of a schedule
  and collapsed set; and a second pass after a first gives what the first gave.
\<close>

theorem render_deterministic:
  assumes "availableWidth vp = availableWidth vp'"
  shows "render tz vp' ((GanttChart tz d)\<lparr>collapsedGroups := S, dayWidth := w, svgWidth := sw,
                                          rows := rs, taskMap := m\<rparr>)
           = render tz vp ((GanttChart tz d)\<lparr>collapsedGroups := S\<rparr>)
       \<and> render tz vp' (fst (render tz vp c)) = render tz vp c"
proof
  show "render tz vp' ((GanttChart tz d)\<lparr>collapsedGroups := S, dayWidth := w, svgWidth := sw,
                                          rows := rs, taskMap := m\<rparr>)
           = render tz vp ((GanttChart tz d)\<lparr>collapsedGroups := S\<rparr>)"
    by (rule render_cong) (simp_all add: assms)
  show "render tz vp' (fst (render tz vp c)) = render tz vp c"
    by (rule render_cong) (simp_all add: render_fst_fields assms)
qed

theorem render_deterministic_witness:
  "availableWidth vp310 = availableWidth \<lparr> clientWidth = 0, innerWidth = 870 \<rparr>
   \<and> render utc \<lparr> clientWidth = 0, innerWidth = 870 \<rparr>
         ((GanttChart utc demo)\<lparr>collapsedGroups := {''phase-1''}, dayWidth := Fin 3,
                                  svgWidth := Fin 7, rows := [], taskMap := Map.empty\<rparr>)
       = render utc vp310 ((GanttChart utc demo)\<lparr>collapsedGroups := {''phase-1''}\<rparr>)
   \<and> render utc \<lparr> clientWidth = 0, innerWidth = 870 \<rparr>
         (fst (render utc vp310 (GanttChart utc demo)))
       = render utc vp310 (GanttChart utc demo)"
proof -
  have h: "availableWidth vp310 = availableWidth \<lparr> clientWidth = 0, innerWidth = 870 \<rparr>"
    by (simp add: availableWidth_def vp310_def)
  from render_deterministic [OF h] h show ?thesis
    by blast
qed

section \<open>Collapsing and expanding a phase\<close>

lemma flatten_visibleY: "map (\<lambda>r. r\<lparr>visibleY := None\<rparr>) (flatten cg gi n gs) = flatten cg gi n gs"
  by (induction gs arbitrary: gi n) (simp_all add: comp_def del: upt_Suc)

lemma flatten_groupIdx: "r \<in> set (flatten cg gi n gs) \<Longrightarrow> gi \<le> groupIdx r \<and> groupIdx r < gi + length gs"
proof (induction gs arbitrary: gi n)
  case Nil
  then show ?case by simp
next
  case (Cons a gs)
  from Cons.prems consider "groupIdx r = gi"
    | "r \<in> set (flatten cg (Suc gi) (Suc n + length (tasks a)) gs)"
    by (auto simp del: upt_Suc)
  then show ?case
  proof cases
    case 1
    then show ?thesis by simp
  next
    case 2
    from Cons.IH [OF this] show ?thesis by simp
  qed
qed

lemma flatten_insert:
  "flatten (insert g cg) gi n gs =
     map (\<lambda>r. if rtype r = TaskRow \<and> group_id (gs ! (groupIdx r - gi)) = g
              then r\<lparr>visible := False\<rparr> else r) (flatten cg gi n gs)"
proof (induction gs arbitrary: gi n)
  case Nil
  then show ?case by simp
next
  case (Cons a gs)
  have "map (\<lambda>r. if rtype r = TaskRow \<and> group_id ((a # gs) ! (groupIdx r - gi)) = g
              then r\<lparr>visible := False\<rparr> else r) (flatten cg (Suc gi) (Suc n + length (tasks a)) gs)
      = map (\<lambda>r. if rtype r = TaskRow \<and> group_id (gs ! (groupIdx r - Suc gi)) = g
              then r\<lparr>visible := False\<rparr> else r) (flatten cg (Suc gi) (Suc n + length (tasks a)) gs)"
  proof (rule map_cong [OF refl])
    fix r assume "r \<in> set (flatten cg (Suc gi) (Suc n + length (tasks a)) gs)"
    then have "Suc gi \<le> groupIdx r" using flatten_groupIdx by blast
    then have "groupIdx r - gi = Suc (groupIdx r - Suc gi)" by simp
    then show "(if rtype r = TaskRow \<and> group_id ((a # gs) ! (groupIdx r - gi)) = g
              then r\<lparr>visible := False\<rparr> else r) = (if rtype r = TaskRow \<and> group_id (gs ! (groupIdx r - Suc gi)) = g
              then r\<lparr>visible := False\<rparr> else r)" by simp
  qed
  then show ?case
    by (simp add: Cons.IH comp_def del: upt_Suc)
qed

lemma filter_visible_hide:
  "filter visible (map (\<lambda>r. if P r then r\<lparr>visible := False\<rparr> else r) xs)
     = filter (\<lambda>r. \<not> P r) (filter visible xs)"
  by (induction xs) auto

lemma rows_render:
  "map (\<lambda>r. r\<lparr>visibleY := None\<rparr>) (filter visible (rows (fst (render tz vp c))))
     = filter visible (flatten (collapsedGroups c) 0 0 (groups (data c)))"
  by (simp add: render_laid_out renderSVG_parts bars_loop_filter_strip flatten_visibleY rows_laid_out)

lemma offsets_render:
  "map visibleY (filter visible (rows (fst (render tz vp c))))
     = map (\<lambda>i. Some (js_mul (Fin (real i)) (Fin ROW_HEIGHT)))
           [0..<length (filter visible (rows (fst (render tz vp c))))]"
proof -
  let ?rs = "rows (laid_out vp c)"
  have "length (filter visible (fst (bars_loop tz (laid_out vp c) ?rs 0))) = length (filter visible ?rs)"
    using arg_cong [OF bars_loop_filter_strip [of tz "laid_out vp c" ?rs 0], of length]
    by (simp add: filter_map comp_def)
  then show ?thesis
    using bars_loop_offsets [of tz "laid_out vp c" ?rs 0]
    by (simp add: render_laid_out renderSVG_parts)
qed

text \<open>The product \<open>visibleIdx * ROW_HEIGHT\<close> is exact for any number of rows a page
  can hold.\<close>

lemma offset_exact:
  assumes "i < 2 ^ 47"
  shows "js_mul (Fin (real i)) (Fin ROW_HEIGHT) = Fin (real i * 44)"
proof -
  have "int i * 44 < 2 ^ 53"
    using assms by simp
  then have "fl (real_of_int (int i * 44)) = real_of_int (int i * 44)"
    by (intro fl_of_int) simp
  then show ?thesis
    by (simp add: ROW_HEIGHT_def)
qed

text \<open>
  C4: after a render pass, toggling a group \<open>g\<close> that is not collapsed puts \<open>g\<close> into
  the collapsed set. The rows are then those of the schedule in document order, every
  phase row visible (that of \<open>g\<close> too) and a task row visible exactly when its group is
  neither \<open>g\<close> nor collapsed before; so the visible rows are, for each group in order,
  its phase row and, unless it is \<open>g\<close> or was collapsed, its task rows. They are the
  visible rows of before without the task rows of the groups with id \<open>g\<close>, and they have
  the offsets \<open>visibleIndex * ROW_HEIGHT\<close> in order. Toggling \<open>g\<close> once more gives
  back the chart and the page of before, with the collapsed set, all rows and their
  offsets.
\<close>

theorem collapse_expand_round_trip:
  fixes tz :: zone and vp :: viewport and c :: chart and g :: string
  assumes "g \<notin> collapsedGroups c"
  defines "c0 \<equiv> fst (render tz vp c)"
  defines "c1 \<equiv> fst (toggleGroup tz vp g c0)"
  shows "collapsedGroups c1 = insert g (collapsedGroups c)
       \<and> map (\<lambda>r. (rtype r, rdata r, visible r)) (rows c1)
           = concat (map (\<lambda>gr. (PhaseRow, GroupData gr, True)
                               # map (\<lambda>t. (TaskRow, TaskData t,
                                            group_id gr \<noteq> g \<and> group_id gr \<notin> collapsedGroups c))
                                     (tasks gr))
                         (groups (data c)))
       \<and> map (\<lambda>r. (rtype r, rdata r)) (filter visible (rows c1))
           = concat (map (\<lambda>gr. (PhaseRow, GroupData gr)
                               # (if group_id gr \<noteq> g \<and> group_id gr \<notin> collapsedGroups c
                                  then map (\<lambda>t. (TaskRow, TaskData t)) (tasks gr) else []))
                         (groups (data c)))
       \<and> map (\<lambda>r. r\<lparr>visibleY := None\<rparr>) (filter visible (rows c1))
           = filter (\<lambda>r. \<not> (rtype r = TaskRow \<and> group_id (groups (data c) ! groupIdx r) = g))
               (map (\<lambda>r. r\<lparr>visibleY := None\<rparr>) (filter visible (rows c0)))
       \<and> map visibleY (filter visible (rows c1))
           = map (\<lambda>i. Some (js_mul (Fin (real i)) (Fin ROW_HEIGHT)))
                 [0..<length (filter visible (rows c1))]
       \<and> toggleGroup tz vp g c1 = render tz vp c"
proof -
  have cg0: "collapsedGroups c0 = collapsedGroups c" and d0: "data c0 = data c"
    by (simp_all add: c0_def render_fst_fields)
  have c1: "c1 = fst (render tz vp (c0\<lparr>collapsedGroups := insert g (collapsedGroups c)\<rparr>))"
    using assms(1) by (simp add: c1_def toggleGroup_def cg0)
  have cg1: "collapsedGroups c1 = insert g (collapsedGroups c)"
    by (simp add: c1 render_fst_fields)
  have d1: "data c1 = data c"
    by (simp add: c1 render_fst_fields d0)
  have doc: "map (\<lambda>r. (rtype r, rdata r, visible r)) (rows c1)
           = concat (map (\<lambda>gr. (PhaseRow, GroupData gr, True)
                               # map (\<lambda>t. (TaskRow, TaskData t,
                                            group_id gr \<noteq> g \<and> group_id gr \<notin> collapsedGroups c))
                                     (tasks gr))
                         (groups (data c)))"
    unfolding c1 rows_render_document_order by (simp add: d0)
  have shown: "map (\<lambda>r. (rtype r, rdata r)) (filter visible (rows c1))
           = concat (map (\<lambda>gr. (PhaseRow, GroupData gr)
                               # (if group_id gr \<noteq> g \<and> group_id gr \<notin> collapsedGroups c
                                  then map (\<lambda>t. (TaskRow, TaskData t)) (tasks gr) else []))
                         (groups (data c)))"
    by (rule visible_rows_document_order) (rule doc)
  have vis: "map (\<lambda>r. r\<lparr>visibleY := None\<rparr>) (filter visible (rows c1))
           = filter (\<lambda>r. \<not> (rtype r = TaskRow \<and> group_id (groups (data c) ! groupIdx r) = g))
               (map (\<lambda>r. r\<lparr>visibleY := None\<rparr>) (filter visible (rows c0)))"
  proof -
    have "map (\<lambda>r. r\<lparr>visibleY := None\<rparr>) (filter visible (rows c1))
        = filter visible (flatten (insert g (collapsedGroups c)) 0 0 (groups (data c)))"
      by (simp add: c1 rows_render d0)
    also have "\<dots> = filter (\<lambda>r. \<not> (rtype r = TaskRow \<and> group_id (groups (data c) ! groupIdx r) = g))
        (filter visible (flatten (collapsedGroups c) 0 0 (groups (data c))))"
      unfolding flatten_insert [of g "collapsedGroups c" 0 0 "groups (data c)"]
      using filter_visible_hide [of "\<lambda>r. rtype r = TaskRow \<and> group_id (groups (data c) ! groupIdx r) = g"]
      by simp
    also have "filter visible (flatten (collapsedGroups c) 0 0 (groups (data c)))
        = map (\<lambda>r. r\<lparr>visibleY := None\<rparr>) (filter visible (rows c0))"
      by (simp only: c0_def rows_render)
    finally show ?thesis .
  qed
  have off: "map visibleY (filter visible (rows c1))
           = map (\<lambda>i. Some (js_mul (Fin (real i)) (Fin ROW_HEIGHT)))
                 [0..<length (filter visible (rows c1))]"
    unfolding c1 by (rule offsets_render)
  have restored: "toggleGroup tz vp g c1 = render tz vp c"
    unfolding toggleGroup_def
    using assms(1) by (intro render_cong) (simp_all add: cg1 d1 c1 c0_def render_fst_fields)
  from cg1 doc shown vis off restored show ?thesis by simp
qed

text \<open>Witness: the first phase of the demo project; its phase row stays, its four task
  rows go, and the second phase keeps its task row.\<close>

theorem collapse_expand_round_trip_witness:
  "''phase-1'' \<notin> collapsedGroups (GanttChart utc demo)
   \<and> collapsedGroups (fst (toggleGroup utc vp310 ''phase-1''
                             (fst (render utc vp310 (GanttChart utc demo)))))
       = insert ''phase-1'' (collapsedGroups (GanttChart utc demo))
   \<and> map (\<lambda>r. (rtype r, data_id (rdata r)))
         (filter visible (rows (fst (toggleGroup utc vp310 ''phase-1''
                                      (fst (render utc vp310 (GanttChart utc demo)))))))
       = [(PhaseRow, ''phase-1''), (PhaseRow, ''phase-2''), (TaskRow, ''task-2-1'')]
   \<and> toggleGroup utc vp310 ''phase-1''
         (fst (toggleGroup utc vp310 ''phase-1'' (fst (render utc vp310 (GanttChart utc demo)))))
       = render utc vp310 (GanttChart utc demo)"
proof -
  have h: "''phase-1'' \<notin> collapsedGroups (GanttChart utc demo)"
    by (simp add: GanttChart_def Let_def)
  let ?c1 = "fst (toggleGroup utc vp310 ''phase-1'' (fst (render utc vp310 (GanttChart utc demo))))"
  from collapse_expand_round_trip [OF h, of utc vp310]
  have a: "collapsedGroups ?c1 = insert ''phase-1'' (collapsedGroups (GanttChart utc demo))"
    and b: "map (\<lambda>r. (rtype r, rdata r)) (filter visible (rows ?c1))
           = concat (map (\<lambda>gr. (PhaseRow, GroupData gr)
                               # (if group_id gr \<noteq> ''phase-1'' \<and> group_id gr \<notin> collapsedGroups (GanttChart utc demo)
                                  then map (\<lambda>t. (TaskRow, TaskData t)) (tasks gr) else []))
                         (groups (data (GanttChart utc demo))))"
    and c: "toggleGroup utc vp310 ''phase-1'' ?c1 = render utc vp310 (GanttChart utc demo)"
    by blast+
  have "map (\<lambda>r. (rtype r, data_id (rdata r))) (filter visible (rows ?c1))
      = map (\<lambda>p. (fst p, data_id (snd p))) (map (\<lambda>r. (rtype r, rdata r)) (filter visible (rows ?c1)))"
    by (simp add: comp_def)
  also have "\<dots> = [(PhaseRow, ''phase-1''), (PhaseRow, ''phase-2''), (TaskRow, ''task-2-1'')]"
    unfolding b by (simp add: GanttChart_def Let_def demo_def demo_task_def)
  finally show ?thesis
    using h a c by simp
qed

section \<open>Dependency arrows\<close>

text \<open>The rows, the bars and the arrow of a project of two tasks, by evaluation of the
  render pass.\<close>

lemmas render_eval =
  render_laid_out renderSVG_parts laid_out_def buildRows_def buildTaskMap_def GanttChart_def
  two_tasks_def demo_task_def Let_def row_arrows_def dep_arrow_def buildDependencyArrow_def
  buildTaskBar_def buildPhaseBar_def parse_jan dateToX_def daysBetween_num_def daysBetween_utc
  viewport_of_def availableWidth_def visibleY_num_def ROW_HEIGHT_def ELBOW_def js_sub_def

text \<open>
  C1, at an input where the code leaves the routing the claim describes. The project runs
  from 2024-01-01 to 2024-01-31 and is shown in 155 pixels, 5 pixels a day; task 1-1 is
  the first day, task 1-2 starts on the second day and depends on 1-1. Then
  \<open>fromX = toX = 5\<close>, the overlap case; the lane is at
  \<open>Math.max(ELBOW, toX - ELBOW) = 10\<close>, right of the target, and the last segment of the
  path runs from 10 back to 5, to the left, where the claim has the path end
  \<open>right to toX\<close> and the comment in the code has it approach the bar from the left.
\<close>

theorem arrow_last_segment_leftward:
  "dependencies (svg (snd (render utc (viewport_of 155)
     (GanttChart utc (two_tasks ''2024-01-01'' ''2024-01-31'' ''2024-01-01'' ''2024-01-01''
                                 ''2024-01-02'' ''2024-01-05'')))))
     = [Path [M (Fin 5) (Fin 66), H (Fin 15), V (Fin 92), H (Fin 10), V (Fin 110), H (Fin 5)]]
   \<and> vertices [M (Fin 5) (Fin 66), H (Fin 15), V (Fin 92), H (Fin 10), V (Fin 110), H (Fin 5)]
       = [(Fin 5, Fin 66), (Fin 15, Fin 66), (Fin 15, Fin 92), (Fin 10, Fin 92),
          (Fin 10, Fin 110), (Fin 5, Fin 110)]
   \<and> js_lt (Fin 5) (Fin 10)"
  by (simp add: render_eval vertices_def)

text \<open>
  C2, at an input where the arrow runs inside the bar of the predecessor. The same
  project is shown in 31 pixels, one pixel a day; task 1-1 is the one day 2024-01-25 and
  task 1-2 starts on the next day. The bar of task 1-1 starts at \<open>x = 24\<close> and is
  widened from 1 pixel to the least width of 4, so it covers 24 to 28; the arrow starts
  at \<open>fromX = 25\<close>, which is computed from the end date without the widening, and its
  first segment runs from 25 to 35 at the height of the middle of the bar: the point
  \<open>(26, 66)\<close> is on the path and inside the bar.
\<close>

theorem arrow_starts_inside_bar:
  "filter is_bar (bars (svg (snd (render utc (viewport_of 31)
     (GanttChart utc (two_tasks ''2024-01-01'' ''2024-01-31'' ''2024-01-25'' ''2024-01-25''
                                 ''2024-01-26'' ''2024-01-30''))))))
     = [G [Rect (Fin 0) (Fin 8) (Fin 31) (Fin 28)], G [Rect (Fin 24) (Fin 54) (Fin 4) (Fin 24)],
        G [Rect (Fin 25) (Fin 98) (Fin 5) (Fin 24)]]
   \<and> dependencies (svg (snd (render utc (viewport_of 31)
     (GanttChart utc (two_tasks ''2024-01-01'' ''2024-01-31'' ''2024-01-25'' ''2024-01-25''
                                 ''2024-01-26'' ''2024-01-30'')))))
     = [Path [M (Fin 25) (Fin 66), H (Fin 35), V (Fin 92), H (Fin 15), V (Fin 110), H (Fin 25)]]
   \<and> on_polyline
         (vertices [M (Fin 25) (Fin 66), H (Fin 35), V (Fin 92), H (Fin 15), V (Fin 110), H (Fin 25)])
         (Fin 26, Fin 66)
   \<and> inside (Rect (Fin 24) (Fin 54) (Fin 4) (Fin 24)) (Fin 26, Fin 66)"
  by (simp add: render_eval vertices_def on_segment_def between_def)

text \<open>Rounding decides between the two routes. In 300 pixels for the 45 days from
  2024-01-01 to 2024-02-14 a day is 6.666666666666667 pixels wide. A predecessor that
  ends on 2024-01-12 and a successor that starts on 2024-01-16 are 20 pixels apart in
  exact arithmetic; in doubles \<open>fromX\<close> is 80.00000000000001 and \<open>toX\<close> is 100,
  the test \<open>fromX + ELBOW * 2 <= toX\<close> fails and the router takes the detour.\<close>

lemma rounding_facts:
  "fl (fl (11 * fl (20 / 3)) + fl (20 / 3)) = 5629499534213121 / 70368744177664"
  "fl (15 * fl (20 / 3)) = 100"
  "fl (7036874417766401 / 70368744177664) = 7036874417766401 / 70368744177664"
  "fl (6333186975989761 / 70368744177664) = 6333186975989761 / 70368744177664"
  by code_simp+

lemma rounding_takes_detour:
  "dependencies (svg (snd (render utc (viewport_of 300)
     (GanttChart utc (two_tasks ''2024-01-01'' ''2024-02-14'' ''2024-01-05'' ''2024-01-12''
                                 ''2024-01-16'' ''2024-01-20'')))))
     = [Path [M (Fin (5629499534213121 / 70368744177664)) (Fin 66),
              H (Fin (6333186975989761 / 70368744177664)), V (Fin 92), H (Fin 90),
              V (Fin 110), H (Fin 100)]]"
  by (simp add: render_eval rounding_facts)

section \<open>The timeline fits the available width\<close>

lemma daysBetween_bounds:
  assumes "TimeClip tz a = Some a" "TimeClip tz b = Some b" "getTime tz a \<le> getTime tz b"
  shows "0 \<le> daysBetween tz a b" "daysBetween tz a b \<le> 200000000"
proof -
  have a: "\<bar>getTime tz a\<bar> \<le> 8640000000000000" and b: "\<bar>getTime tz b\<bar> \<le> 8640000000000000"
    using assms(1,2) by (simp_all add: TimeClip_def split: if_splits)
  show "0 \<le> daysBetween tz a b"
    using assms(3) by (rule daysBetween_nonneg)
  have "getTime tz b - getTime tz a + 43200000 \<le> 17280000043200000"
    using a b by linarith
  then have "(getTime tz b - getTime tz a + 43200000) div 86400000 \<le> 17280000043200000 div 86400000"
    by (rule zdiv_mono1) simp
  then show "daysBetween tz a b \<le> 200000000"
    by (simp add: daysBetween_int)
qed

lemma totalDays_exact:
  assumes "0 \<le> d" "d \<le> 200000000"
  shows "js_add (Fin (real_of_int d)) (Fin 1) = Fin (real_of_int (d + 1))"
proof -
  have "fl (real_of_int (d + 1)) = real_of_int (d + 1)"
    using assms by (intro fl_of_int) simp
  then show ?thesis
    by (simp add: add.commute)
qed

lemma rounding_200_6:
  "fl (100 / 3) = 4691249611844267 / 140737488355328"
  "fl (fl (5 * fl (100 / 3)) + fl (100 / 3)) = 7036874417766401 / 35184372088832"
  by code_simp+

text \<open>
  C7, as the code has it. For a chart whose project dates are valid dates with
  \<open>projectStart\<close> not after \<open>projectEnd\<close> and whose \<open>totalDays\<close> is what the
  constructor computes, \<open>daysBetween(projectStart, projectEnd) + 1\<close>, and for an
  available width that is not negative: \<open>totalDays\<close> is that integer, at least 1; a render
  pass sets the SVG width to the available width and the day width to the double nearest
  to the available width divided by \<open>totalDays\<close>; and the right edge of the cell of the
  last day as the program computes it,
  \<open>dateToX(projectEnd, projectStart, dayWidth) + dayWidth\<close>, is a finite number that
  differs from the available width by at most \<open>2 ^ - 51\<close> of it.
\<close>

theorem timeline_fits_width:
  fixes tz :: zone and vp :: viewport and c :: chart and ps pe :: Date
  assumes "projectStart c = Some ps" "projectEnd c = Some pe"
    "TimeClip tz ps = Some ps" "TimeClip tz pe = Some pe"
    "totalDays c = js_add (daysBetween_num tz (Some ps) (Some pe)) (Fin 1)"
    "getTime tz ps \<le> getTime tz pe" "0 \<le> availableWidth vp"
  defines "W \<equiv> real_of_int (availableWidth vp)"
  defines "c' \<equiv> fst (render tz vp c)"
  shows "totalDays c = Fin (real_of_int (daysBetween tz ps pe + 1))
       \<and> 1 \<le> daysBetween tz ps pe + 1
       \<and> dayWidth c' = Fin (fl (W / real_of_int (daysBetween tz ps pe + 1)))
       \<and> svgWidth c' = Fin W
       \<and> svg_width (svg (snd (render tz vp c))) = Fin W
       \<and> (\<exists>edge. js_add (dateToX tz (projectEnd c') (projectStart c') (dayWidth c')) (dayWidth c')
                    = Fin edge
                \<and> \<bar>edge - W\<bar> \<le> W / 2 ^ 51)"
proof -
  define n where "n = daysBetween tz ps pe + 1"
  have d: "0 \<le> daysBetween tz ps pe" "daysBetween tz ps pe \<le> 200000000"
    using daysBetween_bounds [OF assms(3,4,6)] by simp_all
  have n1: "1 \<le> n" using d(1) by (simp add: n_def)
  have total: "totalDays c = Fin (real_of_int n)"
    using totalDays_exact [OF d] by (simp add: assms(5) daysBetween_num_def n_def)
  have n0: "real_of_int n \<noteq> 0"
    using n1 by simp
  have dw: "dayWidth c' = Fin (fl (W / real_of_int n))"
    using n0 by (simp add: c'_def render_fst_fields total W_def)
  have sw: "svgWidth c' = Fin W" "svg_width (svg (snd (render tz vp c))) = Fin W"
    by (simp_all add: c'_def render_fst_fields W_def render_laid_out renderSVG_parts laid_out_fields)
  have ends: "projectStart c' = Some ps" "projectEnd c' = Some pe"
    by (simp_all add: c'_def render_fst_fields assms(1,2))
  have W0: "0 \<le> W"
    using assms(7) by (simp add: W_def)
  have "js_add (dateToX tz (projectEnd c') (projectStart c') (dayWidth c')) (dayWidth c')
      = Fin (fl (fl (real_of_int (n - 1) * fl (W / real_of_int n)) + fl (W / real_of_int n)))"
    using ends by (simp add: dw dateToX_def daysBetween_num_def n_def)
  moreover have "\<bar>fl (fl (real_of_int (n - 1) * fl (W / real_of_int n)) + fl (W / real_of_int n)) - W\<bar>
      \<le> W / 2 ^ 51"
    using W0 n1 by (rule right_edge_bound)
  ultimately have edge: "\<exists>edge. js_add (dateToX tz (projectEnd c') (projectStart c') (dayWidth c'))
                       (dayWidth c') = Fin edge \<and> \<bar>edge - W\<bar> \<le> W / 2 ^ 51"
    by blast
  from total n1 dw sw edge show ?thesis
    unfolding n_def by blast
qed

text \<open>Witness: the scenario. 2024-01-01 to 2024-01-31 in 310 pixels gives 31 days, a day
  width of 10, a right edge of 310 and \<open>x = 40\<close> for 2024-01-05.\<close>

theorem timeline_fits_width_witness:
  "projectStart (GanttChart utc demo) = Some 19723
   \<and> projectEnd (GanttChart utc demo) = Some 19753
   \<and> TimeClip utc 19723 = Some 19723 \<and> TimeClip utc 19753 = Some 19753
   \<and> totalDays (GanttChart utc demo) = js_add (daysBetween_num utc (Some 19723) (Some 19753)) (Fin 1)
   \<and> getTime utc 19723 \<le> getTime utc 19753 \<and> 0 \<le> availableWidth vp310
   \<and> totalDays (GanttChart utc demo) = Fin 31
   \<and> dayWidth (fst (render utc vp310 (GanttChart utc demo))) = Fin 10
   \<and> svgWidth (fst (render utc vp310 (GanttChart utc demo))) = Fin 310
   \<and> js_add (dateToX utc (projectEnd (fst (render utc vp310 (GanttChart utc demo))))
                 (projectStart (fst (render utc vp310 (GanttChart utc demo))))
                 (dayWidth (fst (render utc vp310 (GanttChart utc demo)))))
              (dayWidth (fst (render utc vp310 (GanttChart utc demo)))) = Fin 310
   \<and> dateToX utc (parseDate utc ''2024-01-05'')
         (projectStart (fst (render utc vp310 (GanttChart utc demo))))
         (dayWidth (fst (render utc vp310 (GanttChart utc demo)))) = Fin 40"
proof -
  have h: "projectStart (GanttChart utc demo) = Some 19723"
    "projectEnd (GanttChart utc demo) = Some 19753"
    "TimeClip utc 19723 = Some 19723" "TimeClip utc 19753 = Some 19753"
    "totalDays (GanttChart utc demo) = js_add (daysBetween_num utc (Some 19723) (Some 19753)) (Fin 1)"
    "getTime utc 19723 \<le> getTime utc 19753" "0 \<le> availableWidth vp310"
    by (simp_all add: demo_chart TimeClip_def getTime_def msPerDay_def utc.rep_eq
        displacement.rep_eq daysBetween_num_def daysBetween_utc availableWidth_def vp310_def)
  have w: "real_of_int (availableWidth vp310) = 310"
    by (simp add: availableWidth_def vp310_def)
  from timeline_fits_width [OF h]
  have "dayWidth (fst (render utc vp310 (GanttChart utc demo))) = Fin 10"
    and "svgWidth (fst (render utc vp310 (GanttChart utc demo))) = Fin 310"
    by (simp_all add: w daysBetween_utc)
  then show ?thesis
    using h
    by (simp add: demo_chart render_fst_fields dateToX_def daysBetween_num_def daysBetween_utc
        parse_jan)
qed

text \<open>The claim has the right edge equal the available width exactly. It need not: a
  project of the 6 days from 2024-01-01 to 2024-01-06 shown in 200 pixels has the day
  width 33.333333333333336, five days are 166.66666666666669 pixels, and the right edge
  is 200.00000000000003, while the SVG is 200 pixels wide.\<close>

theorem right_edge_rounding:
  "js_add
     (dateToX utc
        (projectEnd (fst (render utc (viewport_of 200)
           (GanttChart utc (two_tasks ''2024-01-01'' ''2024-01-06'' ''2024-01-01'' ''2024-01-02''
                                       ''2024-01-05'' ''2024-01-06'')))))
        (projectStart (fst (render utc (viewport_of 200)
           (GanttChart utc (two_tasks ''2024-01-01'' ''2024-01-06'' ''2024-01-01'' ''2024-01-02''
                                       ''2024-01-05'' ''2024-01-06'')))))
        (dayWidth (fst (render utc (viewport_of 200)
           (GanttChart utc (two_tasks ''2024-01-01'' ''2024-01-06'' ''2024-01-01'' ''2024-01-02''
                                       ''2024-01-05'' ''2024-01-06''))))))
     (dayWidth (fst (render utc (viewport_of 200)
        (GanttChart utc (two_tasks ''2024-01-01'' ''2024-01-06'' ''2024-01-01'' ''2024-01-02''
                                    ''2024-01-05'' ''2024-01-06'')))))
     = Fin (7036874417766401 / 35184372088832)
   \<and> dayWidth (fst (render utc (viewport_of 200)
        (GanttChart utc (two_tasks ''2024-01-01'' ''2024-01-06'' ''2024-01-01'' ''2024-01-02''
                                    ''2024-01-05'' ''2024-01-06''))))
     = Fin (4691249611844267 / 140737488355328)
   \<and> svgWidth (fst (render utc (viewport_of 200)
        (GanttChart utc (two_tasks ''2024-01-01'' ''2024-01-06'' ''2024-01-01'' ''2024-01-02''
                                    ''2024-01-05'' ''2024-01-06''))))
     = Fin 200
   \<and> Fin (7036874417766401 / 35184372088832) \<noteq> Fin 200"
proof -
  let ?c = "fst (render utc (viewport_of 200)
        (GanttChart utc (two_tasks ''2024-01-01'' ''2024-01-06'' ''2024-01-01'' ''2024-01-02''
                                    ''2024-01-05'' ''2024-01-06'')))"
  have "js_add (dateToX utc (projectEnd ?c) (projectStart ?c) (dayWidth ?c)) (dayWidth ?c)
      = Fin (7036874417766401 / 35184372088832)"
    by (simp add: render_fst_fields GanttChart_def two_tasks_def Let_def parse_jan dateToX_def
        daysBetween_num_def daysBetween_utc viewport_of_def availableWidth_def rounding_200_6(2))
  moreover have "dayWidth ?c = Fin (4691249611844267 / 140737488355328)"
    by (simp add: render_fst_fields GanttChart_def two_tasks_def Let_def parse_jan
        daysBetween_num_def daysBetween_utc viewport_of_def availableWidth_def rounding_200_6(1))
  moreover have "svgWidth ?c = Fin 200"
    by (simp add: render_fst_fields viewport_of_def availableWidth_def)
  ultimately show ?thesis
    by simp
qed

section \<open>A skipped dependency changes nothing else\<close>

lemma drop_dep_data_simps [simp]:
  "data_id (drop_dep_data tid depId d) = data_id d"
  "data_name (drop_dep_data tid depId d) = data_name d"
  "data_start (drop_dep_data tid depId d) = data_start d"
  "data_end (drop_dep_data tid depId d) = data_end d"
  "data_effort (drop_dep_data tid depId d) = data_effort d"
  by (cases d; simp add: drop_dep_group_def drop_dep_task_def)+

lemma drop_dep_row_simps [simp]:
  "rtype (drop_dep_row tid depId r) = rtype r"
  "visible (drop_dep_row tid depId r) = visible r"
  "visibleY (drop_dep_row tid depId r) = visibleY r"
  "visibleY_num (drop_dep_row tid depId r) = visibleY_num r"
  "rdata (drop_dep_row tid depId r) = drop_dep_data tid depId (rdata r)"
  "(drop_dep_row tid depId r)\<lparr>visibleY := v\<rparr> = drop_dep_row tid depId (r\<lparr>visibleY := v\<rparr>)"
  by (simp_all add: drop_dep_row_def visibleY_num_def)

lemma flatten_drop_dep:
  "flatten cg gi n (map (drop_dep_group tid depId) gs)
     = map (drop_dep_row tid depId) (flatten cg gi n gs)"
  by (induction gs arbitrary: gi n)
     (simp_all add: drop_dep_row_def drop_dep_group_def comp_def del: upt_Suc)

lemma taskMap_loop_drop_dep:
  "taskMap_loop (map (drop_dep_row tid depId) rs) i m = taskMap_loop rs i m"
  by (induction rs arbitrary: i m) simp_all

lemma bar_drop_dep:
  assumes "projectStart c' = projectStart c" "dayWidth c' = dayWidth c"
  shows "buildPhaseBar tz c' (drop_dep_row tid depId r) y = buildPhaseBar tz c r y"
    and "buildTaskBar tz c' (drop_dep_row tid depId r) y = buildTaskBar tz c r y"
  using assms by (simp_all add: buildPhaseBar_def buildTaskBar_def Let_def)

lemma bars_loop_drop_dep:
  assumes "projectStart c' = projectStart c" "dayWidth c' = dayWidth c" "svgWidth c' = svgWidth c"
  shows "bars_loop tz c' (map (drop_dep_row tid depId) rs) k
     = (map (drop_dep_row tid depId) (fst (bars_loop tz c rs k)), snd (bars_loop tz c rs k))"
  by (induction rs arbitrary: k)
     (simp_all add: split_beta Let_def bar_drop_dep [OF assms(1,2)] assms(3))

lemma arrow_drop_dep:
  assumes "projectStart c' = projectStart c" "dayWidth c' = dayWidth c"
  shows "buildDependencyArrow tz c' (drop_dep_row tid depId r) (drop_dep_row tid depId r')
     = buildDependencyArrow tz c r r'"
  using assms by (simp add: buildDependencyArrow_def Let_def)

lemma dep_arrow_drop_dep:
  assumes "projectStart c' = projectStart c" "dayWidth c' = dayWidth c"
    "taskMap c' = taskMap c" "rows c' = map (drop_dep_row tid depId) (rows c)"
  shows "dep_arrow tz c' (drop_dep_row tid depId r) = dep_arrow tz c r"
proof
  fix d
  show "dep_arrow tz c' (drop_dep_row tid depId r) d = dep_arrow tz c r d"
    using assms(3,4)
    by (simp add: dep_arrow_def arrow_drop_dep [OF assms(1,2)] split: option.splits cong: conj_cong)
qed

lemma dep_arrow_unresolved: "\<not> resolves c depId \<Longrightarrow> dep_arrow tz c row depId = []"
  by (cases "taskMap c depId") (simp_all add: resolves_def dep_arrow_def)

lemma concat_map_removeAll:
  "g x = [] \<Longrightarrow> concat (map g (removeAll x xs)) = concat (map g xs)"
  by (induction xs) auto

lemma row_arrows_concat:
  "row_arrows tz c row =
     (if rtype row \<noteq> TaskRow \<or> \<not> visible row then []
      else concat (map (dep_arrow tz c row) (data_dependsOn (rdata row))))"
  by (simp add: row_arrows_def)

lemma row_arrows_drop_dep:
  assumes "projectStart c' = projectStart c" "dayWidth c' = dayWidth c"
    "taskMap c' = taskMap c" "rows c' = map (drop_dep_row tid depId) (rows c)"
    and skipped: "rtype r = TaskRow \<and> data_id (rdata r) = tid \<and> visible r \<longrightarrow> \<not> resolves c depId"
  shows "row_arrows tz c' (drop_dep_row tid depId r) = row_arrows tz c r"
proof (cases "rtype r \<noteq> TaskRow \<or> \<not> visible r")
  case True
  then show ?thesis by (simp add: row_arrows_concat)
next
  case False
  show ?thesis
  proof (cases "rdata r")
    case (GroupData g)
    with False show ?thesis
      by (simp add: row_arrows_concat)
  next
    case (TaskData t)
    show ?thesis
    proof (cases "task_id t = tid")
      case True
      with False TaskData skipped have "dep_arrow tz c r depId = []"
        by (simp add: dep_arrow_unresolved)
      then show ?thesis
        using False TaskData True
        by (simp add: row_arrows_concat dep_arrow_drop_dep [OF assms(1-4)] drop_dep_task_def
            concat_map_removeAll)
    next
      case neq: False
      then show ?thesis
        using False TaskData
        by (simp add: row_arrows_concat dep_arrow_drop_dep [OF assms(1-4)] drop_dep_task_def)
    qed
  qed
qed

lemma laid_out_drop_dep:
  "laid_out vp (c\<lparr>data := drop_dep tid depId (data c)\<rparr>)
     = (laid_out vp c)\<lparr>data := drop_dep tid depId (data c),
                         rows := map (drop_dep_row tid depId) (rows (laid_out vp c))\<rparr>"
  by (cases c)
     (simp add: laid_out_def buildTaskMap_def buildRows_def push_groups_flatten drop_dep_def
        flatten_drop_dep taskMap_loop_drop_dep)

lemma getTickDates_cong:
  "projectStart c' = projectStart c \<Longrightarrow> projectEnd c' = projectEnd c \<Longrightarrow>
   dayWidth c' = dayWidth c \<Longrightarrow> getTickDates tz c' = getTickDates tz c"
  unfolding getTickDates_def by (simp only:)

lemma filter_visible_drop_dep:
  "filter visible (map (drop_dep_row tid depId) rs) = map (drop_dep_row tid depId) (filter visible rs)"
  by (induction rs) simp_all

lemma buildLeftRow_drop_dep:
  "collapsedGroups c' = collapsedGroups c \<Longrightarrow>
   buildLeftRow c' (drop_dep_row tid depId r) = buildLeftRow c r"
  by (simp add: buildLeftRow_def Let_def)

text \<open>
  C8: take a dependency edge into a task \<open>tid\<close> from an id \<open>depId\<close> such that, for
  each visible row of that task, the id does not resolve to a task row or resolves to a
  row that is not visible (rows that are not visible draw no arrows at all). Then no
  arrow is drawn for the edge, and the page of the render pass, with left rows, header,
  grid, bars and all arrows, is the page of the schedule without the edge; the rows are
  the same but for that \<open>dependsOn\<close>. The render pass is a total function: there is no
  error to raise.
\<close>

theorem skipped_dependency_is_local:
  fixes tz :: zone and vp :: viewport and c :: chart and tid depId :: string
  defines "cr \<equiv> fst (render tz vp c)"
  defines "c' \<equiv> c\<lparr>data := drop_dep tid depId (data c)\<rparr>"
  assumes skipped: "\<forall>row\<in>set (rows cr).
      rtype row = TaskRow \<and> data_id (rdata row) = tid \<and> visible row \<longrightarrow> \<not> resolves cr depId"
  shows "snd (render tz vp c') = snd (render tz vp c)
       \<and> rows (fst (render tz vp c')) = map (drop_dep_row tid depId) (rows cr)
       \<and> (\<forall>row\<in>set (rows cr). rtype row = TaskRow \<and> data_id (rdata row) = tid \<longrightarrow>
             (if visible row then dep_arrow tz cr row depId = [] else row_arrows tz cr row = []))"
proof -
  let ?f = "drop_dep_row tid depId"
  let ?L = "laid_out vp c"
  let ?R = "fst (bars_loop tz ?L (rows ?L) 0)"
  define L' where "L' = laid_out vp c'"
  have L': "L' = ?L\<lparr>data := drop_dep tid depId (data c), rows := map ?f (rows ?L)\<rparr>"
    unfolding L'_def c'_def by (rule laid_out_drop_dep)
  have fields: "projectStart L' = projectStart ?L" "projectEnd L' = projectEnd ?L"
    "dayWidth L' = dayWidth ?L" "svgWidth L' = svgWidth ?L" "taskMap L' = taskMap ?L"
    "collapsedGroups L' = collapsedGroups ?L" "rows L' = map ?f (rows ?L)"
    by (simp_all add: L')
  have cr: "cr = ?L\<lparr>rows := ?R\<rparr>"
    by (simp add: cr_def render_laid_out renderSVG_parts)
  have loop: "bars_loop tz L' (rows L') 0 = (map ?f ?R, snd (bars_loop tz ?L (rows ?L) 0))"
    unfolding fields(7) by (rule bars_loop_drop_dep [OF fields(1,3,4)])
  have rows': "rows (fst (render tz vp c')) = map ?f (rows cr)"
    using loop by (simp add: render_laid_out renderSVG_parts cr L'_def [symmetric])
  have ticks: "getTickDates tz L' = getTickDates tz ?L"
    by (rule getTickDates_cong [OF fields(1,2,3)])
  have left: "renderLeftPanel L' = renderLeftPanel ?L"
    by (simp add: renderLeftPanel_def fields(7) buildLeftRow_drop_dep [OF fields(6)] comp_def)
  have head: "renderTimelineHeader tz L' = renderTimelineHeader tz ?L"
    unfolding renderTimelineHeader_def ticks fields(1,3,4) by (rule refl)
  have arrows: "row_arrows tz (L'\<lparr>rows := map ?f ?R\<rparr>) (?f r) = row_arrows tz (?L\<lparr>rows := ?R\<rparr>) r"
    if "r \<in> set ?R" for r
  proof (rule row_arrows_drop_dep)
    show "rtype r = TaskRow \<and> data_id (rdata r) = tid \<and> visible r
        \<longrightarrow> \<not> resolves (?L\<lparr>rows := ?R\<rparr>) depId"
      using skipped that unfolding cr by auto
  qed (simp_all add: fields)
  have deps: "concat (map (row_arrows tz (L'\<lparr>rows := map ?f ?R\<rparr>)) (map ?f ?R))
      = concat (map (row_arrows tz (?L\<lparr>rows := ?R\<rparr>)) ?R)"
    using arrows by (simp add: comp_def cong: map_cong)
  have body: "snd (renderSVG tz L') = snd (renderSVG tz ?L)"
  proof -
    have len: "length (filter visible (rows L')) = length (filter visible (rows ?L))"
      by (simp add: fields(7) filter_visible_drop_dep)
    show ?thesis
      unfolding renderSVG_def Let_def loop len ticks fields(1,3,4) split_conv
      using deps by (simp add: split_beta)
  qed
  have title: "project (data c') = project (data c)"
    by (simp add: c'_def drop_dep_def)
  have "snd (render tz vp c')
      = \<lparr> left_rows = renderLeftPanel L', header = renderTimelineHeader tz L',
          svg = snd (renderSVG tz L'), title = project_name (project (data c')) \<rparr>"
    by (simp only: render_laid_out L'_def snd_conv)
  then have page: "snd (render tz vp c') = snd (render tz vp c)"
    by (simp only: left head body title render_laid_out snd_conv)
  have none: "if visible row then dep_arrow tz cr row depId = [] else row_arrows tz cr row = []"
    if "row \<in> set (rows cr)" "rtype row = TaskRow \<and> data_id (rdata row) = tid" for row
    using that skipped by (auto simp: dep_arrow_unresolved row_arrows_def)
  from page rows' none show ?thesis
    by blast
qed

lemma demo_taskMap_unknown:
  "taskMap_loop (flatten {} 0 0 (groups demo)) 0 Map.empty ''task-9-9'' = None"
  by code_simp

theorem skipped_dependency_is_local_witness:
  "\<not> resolves (fst (render utc vp310 (GanttChart utc demo))) ''task-9-9''
   \<and> snd (render utc vp310
           ((GanttChart utc demo)\<lparr>data := drop_dep ''task-1-2'' ''task-9-9''
                                            (data (GanttChart utc demo))\<rparr>))
       = snd (render utc vp310 (GanttChart utc demo))"
proof -
  have "taskMap (fst (render utc vp310 (GanttChart utc demo))) ''task-9-9'' = None"
    using demo_taskMap_unknown
    by (simp add: render_laid_out renderSVG_parts taskMap_laid_out GanttChart_def Let_def)
  then have nr: "\<not> resolves (fst (render utc vp310 (GanttChart utc demo))) ''task-9-9''"
    by (simp add: resolves_def)
  then have h: "\<forall>row\<in>set (rows (fst (render utc vp310 (GanttChart utc demo)))).
      rtype row = TaskRow \<and> data_id (rdata row) = ''task-1-2'' \<and> visible row
        \<longrightarrow> \<not> resolves (fst (render utc vp310 (GanttChart utc demo))) ''task-9-9''"
    by simp
  from skipped_dependency_is_local [OF h] nr show ?thesis
    by blast
qed

end
